theory Spec2Isabelle
  imports Complex_Main "HOL-Library.AList" "HOL-Library.Char_ord" "HOL-Library.List_Lexorder"
    "HOL-Library.Multiset"
begin

section \<open>Values of the program\<close>

text \<open>
  Every value that \<^verbatim>\<open>slack_exporter.py\<close> handles is decoded JSON: a response of the
  Slack API, a message, a block, a user profile. The source treats them as untyped
  Python objects (\<^verbatim>\<open>Dict\<close>, \<^verbatim>\<open>List\<close>, \<^verbatim>\<open>str\<close>, numbers, \<^verbatim>\<open>None\<close>), so the model
  keeps them untyped. A \<^verbatim>\<open>dict\<close> is an association list in insertion order with
  string keys; Python's \<^verbatim>\<open>None\<close> is \<open>JNull\<close>. Floats are the finite ones, as reals.
\<close>

datatype json =
    JNull
  | JBool bool
  | JInt int
  | JFloat real
  | JStr string
  | JArr "json list"
  | JObj "(string \<times> json) list"

text \<open>
  The exceptions of the source. \<open>Exception\<close> carries the message of the two
  \<^verbatim>\<open>raise Exception(...)\<close> of \<^verbatim>\<open>_make_request\<close>; the others are raised by Python
  itself when an operation meets a value of the wrong type.
\<close>

datatype error =
    Exception string
  | TypeError
  | AttributeError
  | ValueError
  | OverflowError

text \<open>Truthiness, as \<^verbatim>\<open>if x:\<close>, \<^verbatim>\<open>not x\<close> and \<^verbatim>\<open>a or b\<close> test it.\<close>

fun truthy :: "json \<Rightarrow> bool" where
  "truthy JNull = False"
| "truthy (JBool b) = b"
| "truthy (JInt i) = (i \<noteq> 0)"
| "truthy (JFloat r) = (r \<noteq> 0)"
| "truthy (JStr s) = (s \<noteq> [])"
| "truthy (JArr xs) = (xs \<noteq> [])"
| "truthy (JObj kvs) = (kvs \<noteq> [])"

text \<open>\<^verbatim>\<open>a or b\<close>\<close>

definition py_or :: "json \<Rightarrow> json \<Rightarrow> json" where
  "py_or a b = (if truthy a then a else b)"

text \<open>
  \<^verbatim>\<open>d.get(k, default)\<close>: only a dict has the method; on anything else Python raises
  AttributeError.
\<close>

fun py_get :: "json \<Rightarrow> string \<Rightarrow> json \<Rightarrow> error + json" where
  "py_get (JObj kvs) k dflt = Inr (case map_of kvs k of Some v \<Rightarrow> v | None \<Rightarrow> dflt)"
| "py_get _ k dflt = Inl AttributeError"

text \<open>\<^verbatim>\<open>len(x)\<close>\<close>

fun py_len :: "json \<Rightarrow> error + nat" where
  "py_len (JStr s) = Inr (length s)"
| "py_len (JArr xs) = Inr (length xs)"
| "py_len (JObj kvs) = Inr (length kvs)"
| "py_len _ = Inl TypeError"

text \<open>
  Iteration (\<^verbatim>\<open>for x in v\<close>, \<^verbatim>\<open>list.extend(v)\<close>): a list yields its elements, a string
  its characters as one-character strings, a dict its keys; other values are not
  iterable.
\<close>

fun py_iter :: "json \<Rightarrow> error + json list" where
  "py_iter (JArr xs) = Inr xs"
| "py_iter (JStr s) = Inr (map (\<lambda>c. JStr [c]) s)"
| "py_iter (JObj kvs) = Inr (map (\<lambda>kv. JStr (fst kv)) kvs)"
| "py_iter _ = Inl TypeError"

text \<open>
  Keys of a Python dict or set: numbers are one key when they are equal as numbers
  (\<^verbatim>\<open>1 == 1.0 == True\<close>), lists and dicts are unhashable.
\<close>

datatype pykey = KNone | KNum real | KStr string

fun py_hash :: "json \<Rightarrow> error + pykey" where
  "py_hash JNull = Inr KNone"
| "py_hash (JBool b) = Inr (KNum (if b then 1 else 0))"
| "py_hash (JInt i) = Inr (KNum (of_int i))"
| "py_hash (JFloat r) = Inr (KNum r)"
| "py_hash (JStr s) = Inr (KStr s)"
| "py_hash (JArr xs) = Inl TypeError"
| "py_hash (JObj kvs) = Inl TypeError"

section \<open>The world outside the program\<close>

text \<open>
  What the source takes from Python's library and from the network is a parameter of
  the model, collected in one record:
  \<^item> \<open>upstream\<close>: the HTTP exchange of \<^verbatim>\<open>_make_request\<close>
    (\<^verbatim>\<open>session.get\<close>, \<^verbatim>\<open>raise_for_status\<close>, \<^verbatim>\<open>response.json\<close>). Given the requests
    issued so far and the new request, it answers with the decoded body, or with the
    text of a \<^verbatim>\<open>requests.exceptions.RequestException\<close>;
  \<^item> \<open>float_str\<close>: \<^verbatim>\<open>float(s)\<close> on a string, \<open>None\<close> for ValueError;
  \<^item> \<open>float_big\<close>: \<^verbatim>\<open>float(i)\<close> on an integer beyond \<open>2^53\<close> in magnitude (where the
    conversion rounds), \<open>None\<close> for OverflowError;
  \<^item> \<open>str_other\<close>: \<^verbatim>\<open>str(v)\<close>, as an f-string applies it, on a value that is not a
    string;
  \<^item> \<open>joinpath\<close>: \<^verbatim>\<open>pathlib\<close>'s \<^verbatim>\<open>/\<close> on paths;
  \<^item> \<open>strftime\<close>: \<^verbatim>\<open>datetime.fromtimestamp(t).strftime('%Y-%m-%d %H:%M:%S')\<close> in the
    local time zone, \<open>None\<close> where \<^verbatim>\<open>fromtimestamp\<close> raises;
  \<^item> \<open>now\<close>: the same format applied to \<^verbatim>\<open>datetime.now()\<close>;
  \<^item> \<open>oldest_of\<close>: \<^verbatim>\<open>str((datetime.now() - timedelta(days=days_back)).timestamp())\<close>
    as a function of \<^verbatim>\<open>days_back\<close>, with the exception where \<^verbatim>\<open>timedelta\<close> raises.
\<close>

type_synonym request = "string \<times> (string \<times> json) list"

record env =
  upstream :: "request list \<Rightarrow> request \<Rightarrow> string + json"
  float_str :: "string \<Rightarrow> real option"
  float_big :: "int \<Rightarrow> real option"
  str_other :: "json \<Rightarrow> string"
  joinpath :: "string \<Rightarrow> string \<Rightarrow> string"
  strftime :: "real \<Rightarrow> string option"
  now :: string
  oldest_of :: "json \<Rightarrow> error + string"

text \<open>\<^verbatim>\<open>str(v)\<close>, and so \<^verbatim>\<open>f"{v}"\<close>\<close>

fun py_str :: "env \<Rightarrow> json \<Rightarrow> string" where
  "py_str E (JStr s) = s"
| "py_str E v = str_other E v"

text \<open>\<^verbatim>\<open>float(v)\<close>\<close>

fun py_float :: "env \<Rightarrow> json \<Rightarrow> error + real" where
  "py_float E (JFloat r) = Inr r"
| "py_float E (JInt i) =
     (if \<bar>i\<bar> \<le> 2 ^ 53 then Inr (of_int i)
      else (case float_big E i of None \<Rightarrow> Inl OverflowError | Some r \<Rightarrow> Inr r))"
| "py_float E (JBool b) = Inr (if b then 1 else 0)"
| "py_float E (JStr s) = (case float_str E s of None \<Rightarrow> Inl ValueError | Some r \<Rightarrow> Inr r)"
| "py_float E _ = Inl TypeError"

section \<open>The exporter's state\<close>

text \<open>
  \<^verbatim>\<open>SlackExporter\<close> keeps \<^verbatim>\<open>user_cache\<close>; its other effects are the requests it sends
  (\<open>calls\<close>, in order) and the files it opens for writing (\<open>files\<close>: path and content
  written so far, in order of opening; the last one is the file being written). Every
  operation takes the state and returns the new one beside its result, so that the
  state reached when an exception is raised is kept.
\<close>

record state =
  user_cache :: "pykey \<rightharpoonup> json"
  calls :: "request list"
  files :: "(string \<times> string) list"

definition init :: state where
  "init = \<lparr>user_cache = Map.empty, calls = [], files = []\<rparr>"

definition base_url :: string where
  "base_url = ''https://slack.com/api''"

text \<open>
  Sequencing: \<open>and_then\<close> runs a stateful step and hands its result and state on,
  \<open>raise_or\<close> does so for a step without effect; both stop at an exception.
\<close>

definition and_then ::
  "(error + 'a) \<times> state \<Rightarrow> ('a \<Rightarrow> state \<Rightarrow> (error + 'b) \<times> state) \<Rightarrow> (error + 'b) \<times> state" where
  "and_then m f = (case m of (Inl e, st) \<Rightarrow> (Inl e, st) | (Inr a, st) \<Rightarrow> f a st)"

definition raise_or ::
  "error + 'a \<Rightarrow> state \<Rightarrow> ('a \<Rightarrow> (error + 'b) \<times> state) \<Rightarrow> (error + 'b) \<times> state" where
  "raise_or r st f = (case r of Inl e \<Rightarrow> (Inl e, st) | Inr a \<Rightarrow> f a)"

section \<open>API gateway\<close>

text \<open>
  \<^verbatim>\<open>_make_request\<close>: a RequestException of the exchange becomes
  \<^verbatim>\<open>Exception("Request failed: ...")\<close>; a body that is not a dict has no \<^verbatim>\<open>get\<close>
  (AttributeError, which the \<^verbatim>\<open>except\<close> clause does not catch); a body with a falsy
  \<^verbatim>\<open>"ok"\<close> raises \<^verbatim>\<open>Exception("Slack API error: ...")\<close>.
\<close>

definition make_request :: "env \<Rightarrow> state \<Rightarrow> string \<Rightarrow> (string \<times> json) list \<Rightarrow> (error + json) \<times> state" where
  "make_request E st endpoint params =
     (let url = base_url @ ''/'' @ endpoint;
          st' = st\<lparr>calls := calls st @ [(url, params)]\<rparr>
      in case upstream E (calls st) (url, params) of
           Inl e \<Rightarrow> (Inl (Exception (''Request failed: '' @ e)), st')
         | Inr data \<Rightarrow>
             (case py_get data ''ok'' JNull of
                Inl err \<Rightarrow> (Inl err, st')
              | Inr ok \<Rightarrow>
                  if \<not> truthy ok then
                    (case py_get data ''error'' (JStr ''Unknown error'') of
                       Inl err \<Rightarrow> (Inl err, st')
                     | Inr error_msg \<Rightarrow>
                         (Inl (Exception (''Slack API error: '' @ py_str E error_msg)), st'))
                  else (Inr data, st')))"

section \<open>User directory cache\<close>

text \<open>
  \<^verbatim>\<open>get_user_info\<close>. The membership test \<^verbatim>\<open>user_id in self.user_cache\<close> stands before
  the \<^verbatim>\<open>try\<close>, so an unhashable \<^verbatim>\<open>user_id\<close> raises; the bare \<^verbatim>\<open>except\<close> turns every
  exception of the lookup into \<^verbatim>\<open>{}\<close>.
\<close>

definition get_user_info :: "env \<Rightarrow> state \<Rightarrow> json \<Rightarrow> (error + json) \<times> state" where
  "get_user_info E st user_id =
     (case py_hash user_id of
        Inl err \<Rightarrow> (Inl err, st)
      | Inr k \<Rightarrow>
          (case user_cache st k of
             Some cached \<Rightarrow> (Inr cached, st)
           | None \<Rightarrow>
               (case make_request E st ''users.info'' [(''user'', user_id)] of
                  (Inl err, st') \<Rightarrow> (Inr (JObj []), st')
                | (Inr data, st') \<Rightarrow>
                    (case py_get data ''user'' (JObj []) of
                       Inl err \<Rightarrow> (Inr (JObj []), st')
                     | Inr user_info \<Rightarrow>
                         (Inr user_info, st'\<lparr>user_cache := (user_cache st')(k \<mapsto> user_info)\<rparr>)))))"

section \<open>Thread replies\<close>

text \<open>
  \<^verbatim>\<open>x[1:]\<close>: a list or a string without its first element; a dict cannot be sliced
  (TypeError; KeyError from Python 3.12 on).
\<close>

fun py_slice1 :: "json \<Rightarrow> error + json" where
  "py_slice1 (JArr xs) = Inr (JArr (drop 1 xs))"
| "py_slice1 (JStr s) = Inr (JStr (drop 1 s))"
| "py_slice1 _ = Inl TypeError"

text \<open>\<^verbatim>\<open>_fetch_thread_replies\<close>\<close>

definition fetch_thread_replies :: "env \<Rightarrow> state \<Rightarrow> string \<Rightarrow> json \<Rightarrow> (error + json) \<times> state" where
  "fetch_thread_replies E st channel_id thread_ts =
     and_then (make_request E st ''conversations.replies''
                 [(''channel'', JStr channel_id), (''ts'', thread_ts), (''limit'', JInt 100)])
       (\<lambda>data st.
     raise_or (py_get data ''messages'' (JArr [])) st (\<lambda>all_messages.
     raise_or (py_len all_messages) st (\<lambda>n.
       if n > 1 then raise_or (py_slice1 all_messages) st (\<lambda>r. (Inr r, st))
       else (Inr (JArr []), st))))"

section \<open>Message fetcher\<close>

text \<open>
  One turn of the \<^verbatim>\<open>while True\<close> loop of \<^verbatim>\<open>fetch_messages\<close>: it ends in an exception,
  in \<^verbatim>\<open>break\<close> with the messages accumulated, or at the end of the body with the next
  cursor. \<^verbatim>\<open>print\<close> and \<^verbatim>\<open>time.sleep\<close> are left out.
\<close>

datatype turn = Break "json list" | Again json "json list"

definition fetch_page ::
  "env \<Rightarrow> state \<Rightarrow> string \<Rightarrow> string \<Rightarrow> json \<Rightarrow> json list \<Rightarrow> (error + turn) \<times> state" where
  "fetch_page E st channel_id oldest cursor messages =
     (let params = [(''channel'', JStr channel_id), (''oldest'', JStr oldest), (''limit'', JInt 100)]
                   @ (if truthy cursor then [(''cursor'', cursor)] else [])
      in and_then (make_request E st ''conversations.history'' params) (\<lambda>data st.
         raise_or (py_get data ''messages'' (JArr [])) st (\<lambda>batch_messages.
         raise_or (py_iter batch_messages) st (\<lambda>batch.
         let messages = messages @ batch in
         raise_or (py_get data ''has_more'' JNull) st (\<lambda>has_more.
         if \<not> truthy has_more then (Inr (Break messages), st)
         else
           raise_or (py_get data ''response_metadata'' (JObj [])) st (\<lambda>metadata.
           raise_or (py_get metadata ''next_cursor'' JNull) st (\<lambda>cursor.
           if \<not> truthy cursor then (Inr (Break messages), st)
           else (Inr (Again cursor messages), st))))))))"

text \<open>
  The loop. Nothing bounds the number of pages the API may announce, so the loop may
  run forever: its result is \<open>None\<close> then.
\<close>

partial_function (option) paginate ::
  "env \<Rightarrow> string \<Rightarrow> string \<Rightarrow> state \<Rightarrow> json \<Rightarrow> json list \<Rightarrow> ((error + json list) \<times> state) option" where
  "paginate E channel_id oldest st cursor messages =
     (case fetch_page E st channel_id oldest cursor messages of
        (Inl e, st') \<Rightarrow> Some (Inl e, st')
      | (Inr (Break messages'), st') \<Rightarrow> Some (Inr messages', st')
      | (Inr (Again cursor' messages'), st') \<Rightarrow> paginate E channel_id oldest st' cursor' messages')"

text \<open>
  \<^verbatim>\<open>messages.sort(key=lambda x: float(x.get("ts", 0)))\<close>: the keys are computed first,
  an exception among them ends the sort; the sort is stable.
\<close>

fun traverse :: "('a \<Rightarrow> error + 'b) \<Rightarrow> 'a list \<Rightarrow> error + 'b list" where
  "traverse f [] = Inr []"
| "traverse f (x # xs) =
     (case f x of
        Inl e \<Rightarrow> Inl e
      | Inr y \<Rightarrow> (case traverse f xs of Inl e \<Rightarrow> Inl e | Inr ys \<Rightarrow> Inr (y # ys)))"

definition ts_key :: "env \<Rightarrow> json \<Rightarrow> error + real" where
  "ts_key E x = (case py_get x ''ts'' (JInt 0) of Inl e \<Rightarrow> Inl e | Inr t \<Rightarrow> py_float E t)"

definition sort_by_ts :: "env \<Rightarrow> json list \<Rightarrow> error + json list" where
  "sort_by_ts E messages =
     (case traverse (ts_key E) messages of
        Inl e \<Rightarrow> Inl e
      | Inr keys \<Rightarrow> Inr (map snd (sort_key fst (zip keys messages))))"

text \<open>\<^verbatim>\<open>x > 0\<close>\<close>

fun py_gt0 :: "json \<Rightarrow> error + bool" where
  "py_gt0 (JInt i) = Inr (i > 0)"
| "py_gt0 (JFloat r) = Inr (r > 0)"
| "py_gt0 (JBool b) = Inr b"
| "py_gt0 _ = Inl TypeError"

text \<open>\<^verbatim>\<open>d[k] = v\<close> on a dict\<close>

fun py_setitem :: "json \<Rightarrow> string \<Rightarrow> json \<Rightarrow> error + json" where
  "py_setitem (JObj kvs) k v = Inr (JObj (AList.update k v kvs))"
| "py_setitem _ k v = Inl TypeError"

text \<open>\<^verbatim>\<open>_fetch_replies_for_messages\<close>\<close>

fun fetch_replies_for_messages ::
  "env \<Rightarrow> state \<Rightarrow> string \<Rightarrow> json list \<Rightarrow> (error + json list) \<times> state" where
  "fetch_replies_for_messages E st channel_id [] = (Inr [], st)"
| "fetch_replies_for_messages E st channel_id (msg # rest) =
     raise_or (py_get msg ''reply_count'' (JInt 0)) st (\<lambda>reply_count.
     raise_or (py_gt0 reply_count) st (\<lambda>threaded.
     and_then
       (if threaded then
          raise_or (py_get msg ''ts'' JNull) st (\<lambda>thread_ts.
          and_then (fetch_thread_replies E st channel_id thread_ts) (\<lambda>replies st.
          raise_or (py_setitem msg ''replies'' replies) st (\<lambda>msg'. (Inr msg', st))))
        else (Inr msg, st))
       (\<lambda>msg' st.
     and_then (fetch_replies_for_messages E st channel_id rest) (\<lambda>rest' st.
       (Inr (msg' # rest'), st)))))"

text \<open>\<^verbatim>\<open>fetch_messages\<close>\<close>

definition fetch_messages ::
  "env \<Rightarrow> state \<Rightarrow> string \<Rightarrow> json \<Rightarrow> bool \<Rightarrow> ((error + json list) \<times> state) option" where
  "fetch_messages E st channel_id days_back include_replies =
     (case oldest_of E days_back of
        Inl e \<Rightarrow> Some (Inl e, st)
      | Inr oldest \<Rightarrow>
          (case paginate E channel_id oldest st JNull [] of
             None \<Rightarrow> None
           | Some (Inl e, st') \<Rightarrow> Some (Inl e, st')
           | Some (Inr messages, st') \<Rightarrow>
               Some (raise_or (sort_by_ts E messages) st' (\<lambda>messages.
                 if include_replies then fetch_replies_for_messages E st' channel_id messages
                 else (Inr messages, st')))))"

section \<open>Author labels\<close>

text \<open>
  \<^verbatim>\<open>a == b\<close>: numbers are compared by value whatever their type (\<^verbatim>\<open>1 == 1.0 == True\<close>),
  lists element by element, dicts as sets of entries whatever their order (keys are
  taken to be distinct, as in a decoded JSON object).
\<close>

fun num_val :: "json \<Rightarrow> real option" where
  "num_val (JBool b) = Some (if b then 1 else 0)"
| "num_val (JInt i) = Some (of_int i)"
| "num_val (JFloat r) = Some r"
| "num_val _ = None"

fun py_eq :: "json \<Rightarrow> json \<Rightarrow> bool"
  and py_eq_list :: "json list \<Rightarrow> json list \<Rightarrow> bool"
  and py_eq_dict :: "(string \<times> json) list \<Rightarrow> (string \<times> json) list \<Rightarrow> bool"
  and py_eq_entry :: "string \<Rightarrow> json \<Rightarrow> (string \<times> json) list \<Rightarrow> bool" where
  "py_eq JNull b = (b = JNull)"
| "py_eq (JBool x) b = (num_val b = Some (if x then 1 else 0))"
| "py_eq (JInt i) b = (num_val b = Some (of_int i))"
| "py_eq (JFloat r) b = (num_val b = Some r)"
| "py_eq (JStr s) b = (b = JStr s)"
| "py_eq (JArr xs) b = (case b of JArr ys \<Rightarrow> py_eq_list xs ys | _ \<Rightarrow> False)"
| "py_eq (JObj kvs) b =
     (case b of JObj kvs' \<Rightarrow> length kvs = length kvs' \<and> py_eq_dict kvs kvs' | _ \<Rightarrow> False)"
| "py_eq_list [] ys = (ys = [])"
| "py_eq_list (x # xs) ys = (case ys of [] \<Rightarrow> False | y # ys' \<Rightarrow> py_eq x y \<and> py_eq_list xs ys')"
| "py_eq_dict [] kvs' = True"
| "py_eq_dict (kv # kvs) kvs' = (py_eq_entry (fst kv) (snd kv) kvs' \<and> py_eq_dict kvs kvs')"
| "py_eq_entry k v [] = False"
| "py_eq_entry k v (kv' # kvs') = (if k = fst kv' then py_eq v (snd kv') else py_eq_entry k v kvs')"

text \<open>\<^verbatim>\<open>_get_user_display\<close>\<close>

definition get_user_display :: "env \<Rightarrow> state \<Rightarrow> json \<Rightarrow> json \<Rightarrow> (error + json) \<times> state" where
  "get_user_display E st user_id message =
     raise_or (py_get message ''subtype'' JNull) st (\<lambda>subtype.
     if py_eq subtype (JStr ''bot_message'') then
       raise_or (py_get message ''username'' (JStr ''Bot'')) st (\<lambda>username. (Inr username, st))
     else if \<not> truthy user_id then (Inr (JStr ''Unknown User''), st)
     else
       and_then (get_user_info E st user_id) (\<lambda>user_info st.
       if truthy user_info then
         raise_or (py_get user_info ''real_name'' (JStr [])) st (\<lambda>real_name.
         raise_or (py_get user_info ''profile'' (JObj [])) st (\<lambda>profile.
         raise_or (py_get profile ''display_name'' (JStr [])) st (\<lambda>display_name.
         raise_or (py_get user_info ''name'' (JStr [])) st (\<lambda>username.
           (Inr (py_or real_name (py_or display_name
                   (py_or username (JStr (''User '' @ py_str E user_id))))), st)))))
       else (Inr (JStr (''User '' @ py_str E user_id)), st)))"

section \<open>Rich-text renderer\<close>

text \<open>
  A \<^verbatim>\<open>for\<close> loop whose body appends to a list: the parts each element yields, in
  order, with the state threaded through; an exception ends the loop.
\<close>

fun for_each ::
  "('a \<Rightarrow> state \<Rightarrow> (error + 'b list) \<times> state) \<Rightarrow> 'a list \<Rightarrow> state \<Rightarrow> (error + 'b list) \<times> state" where
  "for_each f [] st = (Inr [], st)"
| "for_each f (x # xs) st =
     and_then (f x st) (\<lambda>ys st.
     and_then (for_each f xs st) (\<lambda>zs st. (Inr (ys @ zs), st)))"

text \<open>\<^verbatim>\<open>"".join(parts)\<close>: every part must be a string.\<close>

fun py_join :: "json list \<Rightarrow> error + string" where
  "py_join [] = Inr []"
| "py_join (JStr s # rest) = (case py_join rest of Inl e \<Rightarrow> Inl e | Inr t \<Rightarrow> Inr (s @ t))"
| "py_join (_ # rest) = Inl TypeError"

text \<open>
  The body of the innermost loop of \<^verbatim>\<open>_extract_text_from_blocks\<close>: what one item
  appends to \<^verbatim>\<open>text_parts\<close>.
\<close>

definition render_item :: "env \<Rightarrow> json \<Rightarrow> state \<Rightarrow> (error + json list) \<times> state" where
  "render_item E item st =
     raise_or (py_get item ''type'' JNull) st (\<lambda>kind.
     if py_eq kind (JStr ''text'') then
       raise_or (py_get item ''text'' (JStr [])) st (\<lambda>text. (Inr [text], st))
     else if py_eq kind (JStr ''link'') then
       raise_or (py_get item ''url'' (JStr [])) st (\<lambda>url.
       raise_or (py_get item ''text'' url) st (\<lambda>link_text.
         (Inr [JStr (''['' @ py_str E link_text @ '']('' @ py_str E url @ '')'')], st)))
     else if py_eq kind (JStr ''user'') then
       raise_or (py_get item ''user_id'' (JStr ''unknown'')) st (\<lambda>user_id.
       and_then (get_user_info E st user_id) (\<lambda>user_info st.
       if truthy user_info then
         raise_or (py_get user_info ''profile'' (JObj [])) st (\<lambda>profile.
         raise_or (py_get profile ''display_name'' (JStr [])) st (\<lambda>display_name.
         raise_or (py_get user_info ''name'' (JStr [])) st (\<lambda>username.
           (Inr [JStr (''@'' @ py_str E (py_or display_name (py_or username user_id)))], st))))
       else (Inr [JStr (''@'' @ py_str E user_id)], st)))
     else if py_eq kind (JStr ''emoji'') then
       raise_or (py_get item ''name'' (JStr [])) st (\<lambda>name.
         (Inr [JStr ('':'' @ py_str E name @ '':'')], st))
     else (Inr [], st))"

definition render_element :: "env \<Rightarrow> json \<Rightarrow> state \<Rightarrow> (error + json list) \<times> state" where
  "render_element E element st =
     raise_or (py_get element ''type'' JNull) st (\<lambda>kind.
     if py_eq kind (JStr ''rich_text_section'') then
       raise_or (py_get element ''elements'' (JArr [])) st (\<lambda>items.
       raise_or (py_iter items) st (\<lambda>items. for_each (render_item E) items st))
     else (Inr [], st))"

definition render_block :: "env \<Rightarrow> json \<Rightarrow> state \<Rightarrow> (error + json list) \<times> state" where
  "render_block E block st =
     raise_or (py_get block ''type'' JNull) st (\<lambda>kind.
     if py_eq kind (JStr ''rich_text'') then
       raise_or (py_get block ''elements'' (JArr [])) st (\<lambda>elements.
       raise_or (py_iter elements) st (\<lambda>elements. for_each (render_element E) elements st))
     else (Inr [], st))"

text \<open>\<^verbatim>\<open>_extract_text_from_blocks\<close>; the result is a string or \<^verbatim>\<open>None\<close>.\<close>

definition extract_text_from_blocks :: "env \<Rightarrow> state \<Rightarrow> json \<Rightarrow> (error + json) \<times> state" where
  "extract_text_from_blocks E st blocks =
     raise_or (py_iter blocks) st (\<lambda>blocks.
     and_then (for_each (render_block E) blocks st) (\<lambda>text_parts st.
       if text_parts \<noteq> [] then
         raise_or (py_join text_parts) st (\<lambda>text. (Inr (JStr text), st))
       else (Inr JNull, st)))"

section \<open>Thread metadata\<close>

text \<open>
  \<^verbatim>\<open>participants.add(label)\<close> on a set, kept in insertion order: an unhashable label
  raises, a label equal to one already present changes nothing.
\<close>

definition set_add :: "json \<Rightarrow> json list \<Rightarrow> error + json list" where
  "set_add x s =
     (case py_hash x of
        Inl e \<Rightarrow> Inl e
      | Inr k \<Rightarrow> if Inr k \<in> set (map py_hash s) then Inr s else Inr (s @ [x]))"

text \<open>
  \<^verbatim>\<open>sorted(list(s))\<close> on the elements of a set (distinct, hashable): strings are
  ordered among themselves by code point, numbers by value; as soon as two elements
  have to be compared that cannot be, Python raises TypeError.
\<close>

fun is_str :: "json \<Rightarrow> bool" where
  "is_str (JStr s) = True"
| "is_str _ = False"

fun str_of :: "json \<Rightarrow> string" where
  "str_of (JStr s) = s"
| "str_of _ = []"

definition py_sorted :: "json list \<Rightarrow> error + json list" where
  "py_sorted xs =
     (if length xs \<le> 1 then Inr xs
      else if list_all is_str xs then Inr (map JStr (sort (map str_of xs)))
      else if list_all (\<lambda>x. num_val x \<noteq> None) xs
        then Inr (sort_key (\<lambda>x. case num_val x of Some r \<Rightarrow> r | None \<Rightarrow> 0) xs)
      else Inl TypeError)"

text \<open>The loop over the replies in \<^verbatim>\<open>_get_thread_participants\<close>.\<close>

fun add_repliers :: "env \<Rightarrow> json list \<Rightarrow> json list \<Rightarrow> state \<Rightarrow> (error + json list) \<times> state" where
  "add_repliers E [] names st = (Inr names, st)"
| "add_repliers E (reply # rest) names st =
     raise_or (py_get reply ''user'' (JStr [])) st (\<lambda>reply_user.
     and_then
       (if truthy reply_user then
          and_then (get_user_display E st reply_user reply) (\<lambda>label st.
          raise_or (set_add label names) st (\<lambda>names. (Inr names, st)))
        else (Inr names, st))
       (\<lambda>names st. add_repliers E rest names st))"

text \<open>\<^verbatim>\<open>_get_thread_participants\<close>\<close>

definition get_thread_participants :: "env \<Rightarrow> state \<Rightarrow> json \<Rightarrow> (error + json list) \<times> state" where
  "get_thread_participants E st parent_msg =
     raise_or (py_get parent_msg ''user'' (JStr [])) st (\<lambda>parent_user.
     and_then
       (if truthy parent_user then
          and_then (get_user_display E st parent_user parent_msg) (\<lambda>label st.
          raise_or (set_add label []) st (\<lambda>names. (Inr names, st)))
        else (Inr [], st))
       (\<lambda>names st.
     raise_or (py_get parent_msg ''replies'' (JArr [])) st (\<lambda>replies.
     raise_or (py_iter replies) st (\<lambda>replies.
     and_then (add_repliers E replies names st) (\<lambda>names st.
     raise_or (py_sorted names) st (\<lambda>names. (Inr names, st)))))))"

text \<open>
  The dict \<^verbatim>\<open>_extract_thread_metadata\<close> returns. Its \<^verbatim>\<open>timestamp\<close> is only ever
  formatted, so the field holds the formatted text.
\<close>

record metadata =
  thread_id :: json
  author :: json
  timestamp :: string
  reply_count :: nat
  participants :: "json list"

text \<open>\<^verbatim>\<open>_extract_thread_metadata\<close>\<close>

definition extract_thread_metadata :: "env \<Rightarrow> state \<Rightarrow> json \<Rightarrow> (error + metadata) \<times> state" where
  "extract_thread_metadata E st parent_msg =
     raise_or (py_get parent_msg ''ts'' (JStr [])) st (\<lambda>ts.
     let started = (case py_float E ts of
                      Inl e \<Rightarrow> now E
                    | Inr t \<Rightarrow> (case strftime E t of None \<Rightarrow> now E | Some s \<Rightarrow> s))
     in
     raise_or (py_get parent_msg ''user'' (JStr [])) st (\<lambda>user.
     and_then (get_user_display E st user parent_msg) (\<lambda>label st.
     raise_or (py_get parent_msg ''replies'' (JArr [])) st (\<lambda>replies.
     raise_or (py_len replies) st (\<lambda>n.
     and_then (get_thread_participants E st parent_msg) (\<lambda>names st.
       (Inr \<lparr>thread_id = ts, author = label, timestamp = started, reply_count = n,
              participants = names\<rparr>, st)))))))"

section \<open>Thread exporter\<close>

text \<open>
  Files: \<^verbatim>\<open>open(path, 'w')\<close> starts a file, \<^verbatim>\<open>f.write(s)\<close> appends to the file opened
  last. Consecutive writes with nothing that can raise between them are one write of
  the concatenated text. The file system's own failures are not modelled.
\<close>

definition open_w :: "string \<Rightarrow> state \<Rightarrow> state" where
  "open_w path st = st\<lparr>files := files st @ [(path, [])]\<rparr>"

fun append_last :: "string \<Rightarrow> (string \<times> string) list \<Rightarrow> (string \<times> string) list" where
  "append_last s [] = []"
| "append_last s [pc] = [(fst pc, snd pc @ s)]"
| "append_last s (pc # rest) = pc # append_last s rest"

definition fwrite :: "string \<Rightarrow> state \<Rightarrow> state" where
  "fwrite s st = st\<lparr>files := append_last s (files st)\<rparr>"

definition nl :: string where
  "nl = [CHR 0x0A]"

text \<open>\<^verbatim>\<open>str(n)\<close> on a natural number\<close>

fun show_nat :: "nat \<Rightarrow> string" where
  "show_nat n =
     (if n < 10 then [char_of (48 + n)] else show_nat (n div 10) @ [char_of (48 + n mod 10)])"

text \<open>\<^verbatim>\<open>s.split('\n')\<close>\<close>

fun split_nl :: "string \<Rightarrow> string list" where
  "split_nl [] = [[]]"
| "split_nl (c # cs) =
     (if c = CHR 0x0A then [] # split_nl cs
      else (case split_nl cs of [] \<Rightarrow> [[c]] | w # ws \<Rightarrow> (c # w) # ws))"

text \<open>\<^verbatim>\<open>s.strip()\<close>, on characters up to U+00FF\<close>

definition py_space :: "char \<Rightarrow> bool" where
  "py_space c \<longleftrightarrow>
     c \<in> set [CHR 0x09, CHR 0x0A, CHR 0x0B, CHR 0x0C, CHR 0x0D, CHR 0x1C, CHR 0x1D, CHR 0x1E,
              CHR 0x1F, CHR 0x20, CHR 0x85, CHR 0xA0]"

definition strip :: "string \<Rightarrow> string" where
  "strip s = rev (dropWhile py_space (rev (dropWhile py_space s)))"

text \<open>
  The file name's \<^verbatim>\<open>thread_id.replace(".", "_")\<close>: \<open>normalize_ts\<close> on a string; any other
  value has no \<^verbatim>\<open>replace\<close>.
\<close>

definition normalize_ts :: "string \<Rightarrow> string" where
  "normalize_ts s = map (\<lambda>c. if c = CHR ''.'' then CHR ''_'' else c) s"

fun py_replace_dot :: "json \<Rightarrow> error + string" where
  "py_replace_dot (JStr s) = Inr (normalize_ts s)"
| "py_replace_dot _ = Inl AttributeError"

text \<open>
  The title: \<^verbatim>\<open>text[:50] + "..." if len(text) > 50 else text\<close>, then
  \<^verbatim>\<open>.replace("\n", " ").strip()\<close>. Only a string passes; a list or dict fails at
  \<^verbatim>\<open>+\<close> (TypeError) when longer than 50 and at \<^verbatim>\<open>replace\<close> (AttributeError) otherwise,
  the rest at \<^verbatim>\<open>len\<close>.
\<close>

fun title_of :: "json \<Rightarrow> error + string" where
  "title_of (JStr s) =
     Inr (strip (map (\<lambda>c. if c = CHR 0x0A then CHR '' '' else c)
                   (if length s > 50 then take 50 s @ ''...'' else s)))"
| "title_of (JArr xs) = (if length xs > 50 then Inl TypeError else Inl AttributeError)"
| "title_of (JObj kvs) = (if length kvs > 50 then Inl TypeError else Inl AttributeError)"
| "title_of _ = Inl TypeError"

text \<open>\<^verbatim>\<open>sep.join(parts)\<close> with a separator\<close>

fun py_join_sep :: "string \<Rightarrow> json list \<Rightarrow> error + string" where
  "py_join_sep sep [] = Inr []"
| "py_join_sep sep (x # rest) =
     (case py_join (x # rest) of
        Inl e \<Rightarrow> Inl e
      | Inr _ \<Rightarrow>
          (if rest = [] then Inr (str_of x)
           else (case py_join_sep sep rest of Inl e \<Rightarrow> Inl e | Inr t \<Rightarrow> Inr (str_of x @ sep @ t))))"

text \<open>The loop over \<^verbatim>\<open>files\<close> in \<^verbatim>\<open>_write_message_md\<close>.\<close>

fun write_files :: "env \<Rightarrow> nat \<Rightarrow> string \<Rightarrow> json list \<Rightarrow> state \<Rightarrow> (error + unit) \<times> state" where
  "write_files E level indent [] st = (Inr (), st)"
| "write_files E level indent (file_obj # rest) st =
     raise_or (py_get file_obj ''name'' (JStr ''file'')) st (\<lambda>file_name.
     raise_or (py_get file_obj ''title'' file_name) st (\<lambda>file_title.
     raise_or (py_get file_obj ''permalink'' (JStr [])) st (\<lambda>permalink.
     write_files E level indent rest
       (fwrite
          (if level = 0 then
             nl @ ''**[File: '' @ py_str E file_title @ '']('' @ py_str E permalink @ '')**'' @ nl
           else
             indent @ ''> **[File: '' @ py_str E file_title @ '']('' @ py_str E permalink
               @ '')**'' @ nl)
          st))))"

text \<open>
  The message's content in \<^verbatim>\<open>_write_message_md\<close>: the \<^verbatim>\<open>if text:\<close> statement. A
  reply's text is split into lines, which only a string allows.
\<close>

definition write_text :: "env \<Rightarrow> nat \<Rightarrow> string \<Rightarrow> json \<Rightarrow> state \<Rightarrow> (error + unit) \<times> state" where
  "write_text E level indent text st =
     (if truthy text then
        (if level = 0 then (Inr (), fwrite (py_str E text @ nl) st)
         else
           (case text of
              JStr s \<Rightarrow>
                (Inr (),
                 fwrite (concat (map (\<lambda>line. indent @ ''> '' @ line @ nl) (split_nl s))
                           @ indent @ ''>'' @ nl) st)
            | _ \<Rightarrow> (Inl AttributeError, st)))
      else (Inr (), st))"

text \<open>\<^verbatim>\<open>_write_message_md\<close>\<close>

definition write_message_md :: "env \<Rightarrow> state \<Rightarrow> json \<Rightarrow> nat \<Rightarrow> (error + unit) \<times> state" where
  "write_message_md E st message level =
     (let indent = concat (replicate level ''  '') in
     raise_or (py_get message ''user'' (JStr [])) st (\<lambda>user_id.
     and_then (get_user_display E st user_id message) (\<lambda>username st.
     raise_or (py_get message ''ts'' (JStr [])) st (\<lambda>ts.
     let stamp = (case py_float E ts of
                    Inl e \<Rightarrow> py_str E ts
                  | Inr t \<Rightarrow> (case strftime E t of None \<Rightarrow> py_str E ts | Some s \<Rightarrow> s))
     in
     raise_or (py_get message ''text'' (JStr [])) st (\<lambda>text.
     raise_or (py_get message ''blocks'' (JArr [])) st (\<lambda>blocks.
     and_then
       (if truthy blocks then
          and_then (extract_text_from_blocks E st blocks) (\<lambda>block_text st.
            (Inr (if truthy block_text then block_text else text), st))
        else (Inr text, st))
       (\<lambda>text st.
     let st = fwrite
                (if level = 0 then
                   ''## '' @ py_str E username @ nl @ ''**'' @ stamp @ ''**'' @ nl @ nl
                 else
                   indent @ ''> **'' @ py_str E username @ ''** - '' @ stamp @ nl
                     @ indent @ ''>'' @ nl)
                st
     in
     and_then (write_text E level indent text st) (\<lambda>_ st.
     raise_or (py_get message ''files'' (JArr [])) st (\<lambda>files.
     if truthy files then
       raise_or (py_iter files) st (\<lambda>files. write_files E level indent files st)
     else (Inr (), st))))))))))"

text \<open>The loop over the replies at the end of a thread's file.\<close>

fun write_replies :: "env \<Rightarrow> json list \<Rightarrow> state \<Rightarrow> (error + unit) \<times> state" where
  "write_replies E [] st = (Inr (), st)"
| "write_replies E (reply # rest) st =
     and_then (write_message_md E st reply 1) (\<lambda>_ st. write_replies E rest (fwrite nl st))"

text \<open>
  The body of the \<^verbatim>\<open>with open(file_path, 'w')\<close> block of
  \<^verbatim>\<open>export_threads_individually\<close>: the file has just been opened.
\<close>

definition write_thread_file ::
  "env \<Rightarrow> state \<Rightarrow> string \<Rightarrow> string \<Rightarrow> metadata \<Rightarrow> json \<Rightarrow> nat \<Rightarrow> json \<Rightarrow> (error + unit) \<times> state" where
  "write_thread_file E st channel_name channel_id md replies n parent_msg =
     raise_or (py_get parent_msg ''text'' (JStr [])) st (\<lambda>text.
     and_then
       (if \<not> truthy text then
          raise_or (py_get parent_msg ''blocks'' (JArr [])) st (\<lambda>blocks.
          if truthy blocks then
            and_then (extract_text_from_blocks E st blocks) (\<lambda>block_text st.
              (Inr (py_or block_text (JStr [])), st))
          else (Inr text, st))
        else (Inr text, st))
       (\<lambda>text st.
     raise_or (title_of text) st (\<lambda>title.
     let st = fwrite
                (''# Thread: '' @ title @ nl @ nl
                 @ ''**Thread ID:** '' @ py_str E (thread_id md) @ nl
                 @ ''**Channel:** #'' @ channel_name @ nl
                 @ ''**Channel ID:** '' @ channel_id @ nl
                 @ ''**Started:** '' @ timestamp md @ nl
                 @ ''**Author:** '' @ py_str E (author md) @ nl
                 @ ''**Reply Count:** '' @ show_nat (reply_count md) @ nl)
                st
     in
     and_then
       (if participants md \<noteq> [] then
          raise_or (py_join_sep '', '' (participants md)) st (\<lambda>participants_str.
            (Inr (), fwrite (''**Participants:** '' @ participants_str @ nl) st))
        else (Inr (), st))
       (\<lambda>_ st.
     let st = fwrite (nl @ ''---'' @ nl @ nl @ ''## Parent Message'' @ nl @ nl) st in
     and_then (write_message_md E st parent_msg 0) (\<lambda>_ st.
     let st = fwrite nl st in
     if n > 0 then
       (let st = fwrite (nl @ ''## Replies ('' @ show_nat n @ '')'' @ nl @ nl) st in
        raise_or (py_iter replies) st (\<lambda>replies. write_replies E replies st))
     else (Inr (), st))))))"

text \<open>
  The body of the loop of \<^verbatim>\<open>export_threads_individually\<close> for one thread parent. The
  result tells whether the thread was exported (\<^verbatim>\<open>exported_count += 1\<close>) or skipped
  (\<^verbatim>\<open>skipped_count += 1\<close>).
\<close>

definition export_thread ::
  "env \<Rightarrow> state \<Rightarrow> string \<Rightarrow> string \<Rightarrow> string \<Rightarrow> bool \<Rightarrow> json \<Rightarrow> (error + bool) \<times> state" where
  "export_thread E st threads_dir channel_name channel_id include_standalone parent_msg =
     raise_or (py_get parent_msg ''replies'' (JArr [])) st (\<lambda>replies.
     raise_or (py_len replies) st (\<lambda>n.
     let has_replies = (n > 0) in
     if \<not> has_replies \<and> \<not> include_standalone then (Inr False, st)
     else
       and_then (extract_thread_metadata E st parent_msg) (\<lambda>md st.
       raise_or (py_replace_dot (thread_id md)) st (\<lambda>thread_id.
       let filename = ''thread_'' @ thread_id @ ''.md'';
           file_path = joinpath E threads_dir filename
       in
       and_then
         (write_thread_file E (open_w file_path st) channel_name channel_id md replies n parent_msg)
         (\<lambda>_ st. (Inr True, st))))))"

text \<open>The loop, with its two counters.\<close>

fun export_loop ::
  "env \<Rightarrow> string \<Rightarrow> string \<Rightarrow> string \<Rightarrow> bool \<Rightarrow> json list \<Rightarrow> nat \<times> nat \<Rightarrow> state
     \<Rightarrow> (error + nat \<times> nat) \<times> state" where
  "export_loop E threads_dir channel_name channel_id include_standalone [] counts st =
     (Inr counts, st)"
| "export_loop E threads_dir channel_name channel_id include_standalone (parent_msg # rest) counts st =
     and_then
       (export_thread E st threads_dir channel_name channel_id include_standalone parent_msg)
       (\<lambda>exported st.
          export_loop E threads_dir channel_name channel_id include_standalone rest
            (if exported then (fst counts + 1, snd counts) else (fst counts, snd counts + 1)) st)"

text \<open>\<^verbatim>\<open>msg.get("thread_ts") == msg.get("ts")\<close>\<close>

definition is_thread_parent :: "json \<Rightarrow> error + bool" where
  "is_thread_parent msg =
     (case py_get msg ''thread_ts'' JNull of
        Inl e \<Rightarrow> Inl e
      | Inr thread_ts \<Rightarrow>
          (case py_get msg ''ts'' JNull of Inl e \<Rightarrow> Inl e | Inr ts \<Rightarrow> Inr (py_eq thread_ts ts)))"

text \<open>
  \<^verbatim>\<open>export_threads_individually\<close>. The source prints the two counters and returns
  nothing; the model returns them: \<open>(exported_count, skipped_count)\<close>. \<^verbatim>\<open>days_back\<close> is
  not used by the source, and \<^verbatim>\<open>mkdir\<close> writes no file.
\<close>

definition export_threads_individually ::
  "env \<Rightarrow> state \<Rightarrow> json list \<Rightarrow> string \<Rightarrow> string \<Rightarrow> string \<Rightarrow> bool \<Rightarrow> (error + nat \<times> nat) \<times> state" where
  "export_threads_individually E st messages output_dir channel_name channel_id include_standalone =
     (let threads_dir = joinpath E (joinpath E output_dir channel_name) ''threads'' in
      raise_or (traverse is_thread_parent messages) st (\<lambda>flags.
      let thread_parents = map fst (filter snd (zip messages flags)) in
      export_loop E threads_dir channel_name channel_id include_standalone thread_parents (0, 0) st))"

section \<open>The items of a message's blocks\<close>

text \<open>
  What the three nested loops of \<^verbatim>\<open>_extract_text_from_blocks\<close> walk over, read off
  the blocks alone: the items of the \<^verbatim>\<open>rich_text_section\<close> elements of the
  \<^verbatim>\<open>rich_text\<close> blocks, in block, element and item order. It is used to state what
  the renderer computes, not by the renderer.
\<close>

definition section_items :: "json \<Rightarrow> error + json list" where
  "section_items element =
     (case py_get element ''type'' JNull of
        Inl e \<Rightarrow> Inl e
      | Inr kind \<Rightarrow>
          if py_eq kind (JStr ''rich_text_section'') then
            (case py_get element ''elements'' (JArr []) of
               Inl e \<Rightarrow> Inl e
             | Inr items \<Rightarrow> py_iter items)
          else Inr [])"

definition block_items :: "json \<Rightarrow> error + json list" where
  "block_items block =
     (case py_get block ''type'' JNull of
        Inl e \<Rightarrow> Inl e
      | Inr kind \<Rightarrow>
          if py_eq kind (JStr ''rich_text'') then
            (case py_get block ''elements'' (JArr []) of
               Inl e \<Rightarrow> Inl e
             | Inr elements \<Rightarrow>
                 (case py_iter elements of
                    Inl e \<Rightarrow> Inl e
                  | Inr elements \<Rightarrow>
                      (case traverse section_items elements of
                         Inl e \<Rightarrow> Inl e
                       | Inr itemss \<Rightarrow> Inr (concat itemss))))
          else Inr [])"

definition rich_text_items :: "json \<Rightarrow> error + json list" where
  "rich_text_items blocks =
     (case py_iter blocks of
        Inl e \<Rightarrow> Inl e
      | Inr blocks \<Rightarrow>
          (case traverse block_items blocks of
             Inl e \<Rightarrow> Inl e
           | Inr itemss \<Rightarrow> Inr (concat itemss)))"

text \<open>
  Writing never touches a file but the one opened last: \<open>grown F fs\<close> says that the
  files \<open>fs\<close> are the files \<open>F\<close> with text appended to the last one.
\<close>

definition grown :: "(string \<times> string) list \<Rightarrow> (string \<times> string) list \<Rightarrow> bool" where
  "grown F fs \<longleftrightarrow> (\<exists>c. fs = append_last c F)"

text \<open>
  Read off a thread parent alone: whether it has replies attached
  (\<^verbatim>\<open>len(parent_msg.get("replies", [])) > 0\<close>), its timestamp when that is a string, and
  the path of a thread's file, \<^verbatim>\<open>Path(output_dir) / channel_name / "threads"\<close> joined
  with \<^verbatim>\<open>thread_<id>.md\<close>. They are used to state which files the exporter writes.
\<close>

definition has_replies :: "json \<Rightarrow> bool" where
  "has_replies parent_msg =
     (case py_get parent_msg ''replies'' (JArr []) of
        Inl e \<Rightarrow> False
      | Inr replies \<Rightarrow> (case py_len replies of Inl e \<Rightarrow> False | Inr n \<Rightarrow> n > 0))"

definition ts_of :: "json \<Rightarrow> string" where
  "ts_of msg = (case py_get msg ''ts'' (JStr []) of Inr (JStr T) \<Rightarrow> T | _ \<Rightarrow> [])"

definition thread_file_name :: "env \<Rightarrow> string \<Rightarrow> string \<Rightarrow> string \<Rightarrow> string" where
  "thread_file_name E output_dir channel_name T =
     joinpath E (joinpath E (joinpath E output_dir channel_name) ''threads'')
       (''thread_'' @ normalize_ts T @ ''.md'')"


section \<open>A concrete environment for examples\<close>

text \<open>
  The examples below run the model in an environment where \<^verbatim>\<open>float\<close> reads plain
  decimal numerals (digits, optionally a point and more digits), paths are joined
  with a slash and the API's answers are given by a function.
\<close>

definition digits_val :: "string \<Rightarrow> nat option" where
  "digits_val s =
     (if s \<noteq> [] \<and> list_all (\<lambda>c. c \<in> set ''0123456789'') s
      then Some (foldl (\<lambda>n c. 10 * n + (of_char c - 48)) 0 s) else None)"

definition dec_float :: "string \<Rightarrow> real option" where
  "dec_float s =
     (case dropWhile (\<lambda>c. c \<noteq> CHR ''.'') s of
        [] \<Rightarrow> map_option real (digits_val s)
      | _ # f \<Rightarrow>
          (case (digits_val (takeWhile (\<lambda>c. c \<noteq> CHR ''.'') s), digits_val f) of
             (Some x, Some y) \<Rightarrow> Some (real x + real y / 10 ^ length f)
           | _ \<Rightarrow> None))"

definition demo_env :: "(request list \<Rightarrow> request \<Rightarrow> string + json) \<Rightarrow> env" where
  "demo_env up =
     \<lparr>upstream = up, float_str = dec_float, float_big = (\<lambda>i. Some (of_int i)),
      str_other = (\<lambda>v. ''<value>''), joinpath = (\<lambda>a b. a @ ''/'' @ b),
      strftime = (\<lambda>t. None), now = ''now'', oldest_of = (\<lambda>d. Inr ''1700000000.0'')\<rparr>"

text \<open>
  A small channel: two pages of history linked by the cursor \<^verbatim>\<open>"c1"\<close>, a thread
  with two replies, one known user (\<^verbatim>\<open>"U1"\<close>), and a page that announces more
  messages without giving a cursor.
\<close>

definition msg_a :: json where
  "msg_a = JObj [(''ts'', JStr ''1700000003.000200''), (''user'', JStr ''U1''), (''text'', JStr ''third''),
                 (''thread_ts'', JStr ''1700000003.000200''), (''reply_count'', JInt 2)]"

definition msg_b :: json where
  "msg_b = JObj [(''ts'', JStr ''1700000001.000100''), (''user'', JStr ''U2''), (''text'', JStr ''first'')]"

definition msg_c :: json where
  "msg_c = JObj [(''ts'', JStr ''1700000002.000100''), (''subtype'', JStr ''bot_message''),
                 (''username'', JStr ''DeployBot''), (''text'', JStr ''deployed''),
                 (''thread_ts'', JStr ''1700000002.000100''), (''reply_count'', JInt 0)]"

definition msg_d :: json where
  "msg_d = JObj [(''text'', JStr ''no timestamp'')]"

definition reply_1 :: json where
  "reply_1 = JObj [(''ts'', JStr ''1700000004.000100''), (''user'', JStr ''U2''), (''text'', JStr ''one'')]"

definition reply_2 :: json where
  "reply_2 = JObj [(''ts'', JStr ''1700000005.000100''), (''user'', JStr ''U1''), (''text'', JStr ''two'')]"

definition page_1 :: json where
  "page_1 = JObj [(''ok'', JBool True), (''messages'', JArr [msg_a, msg_b]), (''has_more'', JBool True),
                  (''response_metadata'', JObj [(''next_cursor'', JStr ''c1'')])]"

definition page_2 :: json where
  "page_2 = JObj [(''ok'', JBool True), (''messages'', JArr [msg_c, msg_d]), (''has_more'', JBool False)]"

definition demo_api :: "request list \<Rightarrow> request \<Rightarrow> string + json" where
  "demo_api h r =
     (if fst r = ''https://slack.com/api/conversations.history'' then
        (if map_of (snd r) ''cursor'' = None then Inr page_1 else Inr page_2)
      else if fst r = ''https://slack.com/api/conversations.replies'' then
        Inr (JObj [(''ok'', JBool True), (''messages'', JArr [msg_a, reply_1, reply_2])])
      else if fst r = ''https://slack.com/api/users.info'' then
        (if map_of (snd r) ''user'' = Some (JStr ''U1'') then
           Inr (JObj [(''ok'', JBool True),
                      (''user'', JObj [(''name'', JStr ''alice''), (''real_name'', JStr ''Alice A'')])])
         else Inr (JObj [(''ok'', JBool False), (''error'', JStr ''user_not_found'')]))
      else Inl ''404 Client Error'')"

definition history_1 :: request where
  "history_1 = (''https://slack.com/api/conversations.history'',
                [(''channel'', JStr ''C1''), (''oldest'', JStr ''1700000000.0''), (''limit'', JInt 100)])"

definition history_2 :: request where
  "history_2 = (''https://slack.com/api/conversations.history'',
                [(''channel'', JStr ''C1''), (''oldest'', JStr ''1700000000.0''), (''limit'', JInt 100),
                 (''cursor'', JStr ''c1'')])"

definition replies_a :: request where
  "replies_a = (''https://slack.com/api/conversations.replies'',
                [(''channel'', JStr ''C1''), (''ts'', JStr ''1700000003.000200''), (''limit'', JInt 100)])"

definition page_stuck :: json where
  "page_stuck = JObj [(''ok'', JBool True), (''messages'', JArr [msg_b]), (''has_more'', JBool True)]"

lemmas demo_defs = demo_env_def demo_api_def init_def base_url_def page_1_def page_2_def
  history_1_def history_2_def replies_a_def

definition blocks_f :: json where
  "blocks_f = JArr [JObj [(''type'', JStr ''rich_text''),
     (''elements'', JArr [JObj [(''type'', JStr ''rich_text_section''),
        (''elements'', JArr
           [JObj [(''type'', JStr ''text''), (''text'', JStr ''Hello '')],
            JObj [(''type'', JStr ''link''), (''url'', JStr ''https://example.com''),
                  (''text'', JStr ''docs'')],
            JObj [(''type'', JStr ''user''), (''user_id'', JStr ''U1'')]])]])]]"

definition blocks_empty_text :: json where
  "blocks_empty_text = JArr [JObj [(''type'', JStr ''rich_text''),
     (''elements'', JArr [JObj [(''type'', JStr ''rich_text_section''),
        (''elements'', JArr [JObj [(''type'', JStr ''text''), (''text'', JStr [])]])]])]]"

definition users_info_1 :: request where
  "users_info_1 = (''https://slack.com/api/users.info'', [(''user'', JStr ''U1'')])"

definition profile_1 :: json where
  "profile_1 = JObj [(''name'', JStr ''alice''), (''real_name'', JStr ''Alice A'')]"

definition thread_a :: json where
  "thread_a = JObj [(''ts'', JStr ''1700000003.000200''), (''user'', JStr ''U1''),
                    (''text'', JStr ''third''), (''thread_ts'', JStr ''1700000003.000200''),
                    (''reply_count'', JInt 2), (''replies'', JArr [reply_1, reply_2])]"

section \<open>API errors (C5)\<close>

text \<open>
  C5, as the code has it: when the decoded body is a dict whose \<^verbatim>\<open>"ok"\<close> is falsy
  (or missing), \<^verbatim>\<open>_make_request\<close> raises an exception whose message is
  \<^verbatim>\<open>"Slack API error: "\<close> followed by the body's \<^verbatim>\<open>"error"\<close> field, and by
  \<^verbatim>\<open>"Unknown error"\<close> when the field is absent. The request has been sent.
\<close>

theorem make_request_api_error:
  assumes "upstream E (calls st) (base_url @ ''/'' @ endpoint, params) = Inr (JObj kvs)"
    and "\<not> truthy (case map_of kvs ''ok'' of Some v \<Rightarrow> v | None \<Rightarrow> JNull)"
  shows "make_request E st endpoint params =
           (Inl (Exception (''Slack API error: '' @
                   py_str E (case map_of kvs ''error'' of Some v \<Rightarrow> v
                             | None \<Rightarrow> JStr ''Unknown error''))),
            st\<lparr>calls := calls st @ [(base_url @ ''/'' @ endpoint, params)]\<rparr>)"
  using assms by (simp add: make_request_def Let_def)

text \<open>The theorem at the body \<^verbatim>\<open>{"ok": false, "error": "invalid_auth"}\<close>.\<close>

theorem make_request_api_error_witness:
  "make_request
     (demo_env (\<lambda>h r. Inr (JObj [(''ok'', JBool False), (''error'', JStr ''invalid_auth'')])))
     init ''conversations.history'' [] =
   (Inl (Exception ''Slack API error: invalid_auth''),
    init\<lparr>calls := [(''https://slack.com/api/conversations.history'', [])]\<rparr>)"
  using make_request_api_error
    [of "demo_env (\<lambda>h r. Inr (JObj [(''ok'', JBool False), (''error'', JStr ''invalid_auth'')]))"
        init "''conversations.history''" "[]"
        "[(''ok'', JBool False), (''error'', JStr ''invalid_auth'')]"]
  by (simp add: demo_env_def init_def base_url_def)

text \<open>
  The claim's default code \<^verbatim>\<open>"unknown_error"\<close> is not what the code carries: at the
  body \<^verbatim>\<open>{"ok": false}\<close> the message ends in \<^verbatim>\<open>"Unknown error"\<close>.
\<close>

theorem make_request_default_code_counterexample:
  "fst (make_request (demo_env (\<lambda>h r. Inr (JObj [(''ok'', JBool False)])))
          init ''conversations.history'' []) =
     Inl (Exception ''Slack API error: Unknown error'')
   \<and> fst (make_request (demo_env (\<lambda>h r. Inr (JObj [(''ok'', JBool False)])))
          init ''conversations.history'' []) \<noteq>
     Inl (Exception (''Slack API error: '' @ ''unknown_error''))"
  by (simp add: make_request_def demo_env_def init_def base_url_def)

section \<open>User cache (C2)\<close>

lemma make_request_calls:
  "calls (snd (make_request E st endpoint params)) =
     calls st @ [(base_url @ ''/'' @ endpoint, params)]"
  by (simp add: make_request_def Let_def split: sum.splits)

lemma make_request_user_cache:
  "user_cache (snd (make_request E st endpoint params)) = user_cache st"
  by (simp add: make_request_def Let_def split: sum.splits)

lemma make_request_Inr_dict:
  "make_request E st endpoint params = (Inr data, st') \<Longrightarrow> \<exists>kvs. data = JObj kvs"
  by (cases "upstream E (calls st) (base_url @ ''/'' @ endpoint, params)"; cases data)
     (auto simp: make_request_def Let_def split: sum.splits if_splits)

text \<open>
  C2. Take a hashable user ID that is not in the cache, and let the lookup's request
  be the one \<^verbatim>\<open>get_user_info\<close> sends.
  \<^item> If the request succeeds, the profile (the body's \<^verbatim>\<open>"user"\<close>, \<^verbatim>\<open>{}\<close> when missing)
    is returned and cached, and a second resolution returns the same profile and
    leaves the whole state, the list of requests sent included, as it is.
  \<^item> If the request fails, \<^verbatim>\<open>{}\<close> is returned and no error, the cache is as before,
    and the next resolution sends the request again.
\<close>

theorem get_user_info_cache:
  assumes "py_hash uid = Inr k" and "user_cache st k = None"
    and "make_request E st ''users.info'' [(''user'', uid)] = (r, st1)"
  shows "(\<forall>data. r = Inr data \<longrightarrow>
            (\<exists>info st2. py_get data ''user'' (JObj []) = Inr info
               \<and> get_user_info E st uid = (Inr info, st2)
               \<and> user_cache st2 = (user_cache st)(k \<mapsto> info)
               \<and> calls st2 = calls st @ [(base_url @ ''/users.info'', [(''user'', uid)])]
               \<and> get_user_info E st2 uid = (Inr info, st2)))
       \<and> (\<forall>e. r = Inl e \<longrightarrow>
            get_user_info E st uid = (Inr (JObj []), st1)
            \<and> user_cache st1 = user_cache st
            \<and> calls st1 = calls st @ [(base_url @ ''/users.info'', [(''user'', uid)])]
            \<and> calls (snd (get_user_info E st1 uid)) =
                calls st1 @ [(base_url @ ''/users.info'', [(''user'', uid)])])"
proof (intro conjI allI impI)
  fix data assume r: "r = Inr data"
  from assms(3) r obtain kvs where d: "data = JObj kvs"
    using make_request_Inr_dict by blast
  define info where "info = (case map_of kvs ''user'' of Some v \<Rightarrow> v | None \<Rightarrow> JObj [])"
  define st2 where "st2 = st1\<lparr>user_cache := (user_cache st1)(k \<mapsto> info)\<rparr>"
  have c1: "calls st1 = calls st @ [(base_url @ ''/users.info'', [(''user'', uid)])]"
    using make_request_calls [of E st "''users.info''" "[(''user'', uid)]"] assms(3) by simp
  have u1: "user_cache st1 = user_cache st"
    using make_request_user_cache [of E st "''users.info''" "[(''user'', uid)]"] assms(3) by simp
  have g: "get_user_info E st uid = (Inr info, st2)"
    using assms r d by (simp add: get_user_info_def info_def st2_def)
  have "get_user_info E st2 uid = (Inr info, st2)"
    using assms(1) by (simp add: get_user_info_def st2_def)
  with g c1 u1 d
  show "\<exists>info st2. py_get data ''user'' (JObj []) = Inr info
               \<and> get_user_info E st uid = (Inr info, st2)
               \<and> user_cache st2 = (user_cache st)(k \<mapsto> info)
               \<and> calls st2 = calls st @ [(base_url @ ''/users.info'', [(''user'', uid)])]
               \<and> get_user_info E st2 uid = (Inr info, st2)"
    by (intro exI [of _ info] exI [of _ st2]) (simp add: info_def st2_def)
next
  fix e assume r: "r = Inl e"
  show "get_user_info E st uid = (Inr (JObj []), st1)"
    using assms r by (simp add: get_user_info_def)
  show u1: "user_cache st1 = user_cache st"
    using make_request_user_cache [of E st "''users.info''" "[(''user'', uid)]"] assms(3) by simp
  show "calls st1 = calls st @ [(base_url @ ''/users.info'', [(''user'', uid)])]"
    using make_request_calls [of E st "''users.info''" "[(''user'', uid)]"] assms(3) by simp
  have "calls (snd (get_user_info E st1 uid)) =
          calls (snd (make_request E st1 ''users.info'' [(''user'', uid)]))"
    using assms(1,2) u1
    by (simp add: get_user_info_def make_request_user_cache
        split: prod.splits sum.splits)
  then show "calls (snd (get_user_info E st1 uid)) =
               calls st1 @ [(base_url @ ''/users.info'', [(''user'', uid)])]"
    by (simp add: make_request_calls)
qed

text \<open>
  Both cases at the user ID \<^verbatim>\<open>"U1"\<close>: an API that answers with a profile, and a
  transport that fails.
\<close>

theorem get_user_info_cache_witness:
  "get_user_info
     (demo_env (\<lambda>h r. Inr (JObj [(''ok'', JBool True), (''user'', JObj [(''name'', JStr ''alice'')])])))
     init (JStr ''U1'') =
     (Inr (JObj [(''name'', JStr ''alice'')]),
      \<lparr>user_cache = [KStr ''U1'' \<mapsto> JObj [(''name'', JStr ''alice'')]],
       calls = [(''https://slack.com/api/users.info'', [(''user'', JStr ''U1'')])],
       files = []\<rparr>)
   \<and> get_user_info
     (demo_env (\<lambda>h r. Inr (JObj [(''ok'', JBool True), (''user'', JObj [(''name'', JStr ''alice'')])])))
     \<lparr>user_cache = [KStr ''U1'' \<mapsto> JObj [(''name'', JStr ''alice'')]],
       calls = [(''https://slack.com/api/users.info'', [(''user'', JStr ''U1'')])],
       files = []\<rparr> (JStr ''U1'') =
     (Inr (JObj [(''name'', JStr ''alice'')]),
      \<lparr>user_cache = [KStr ''U1'' \<mapsto> JObj [(''name'', JStr ''alice'')]],
       calls = [(''https://slack.com/api/users.info'', [(''user'', JStr ''U1'')])],
       files = []\<rparr>)
   \<and> get_user_info (demo_env (\<lambda>h r. Inl ''timed out'')) init (JStr ''U1'') =
     (Inr (JObj []),
      \<lparr>user_cache = Map.empty,
       calls = [(''https://slack.com/api/users.info'', [(''user'', JStr ''U1'')])],
       files = []\<rparr>)
   \<and> calls (snd (get_user_info (demo_env (\<lambda>h r. Inl ''timed out''))
        \<lparr>user_cache = Map.empty,
         calls = [(''https://slack.com/api/users.info'', [(''user'', JStr ''U1'')])],
         files = []\<rparr> (JStr ''U1''))) =
     [(''https://slack.com/api/users.info'', [(''user'', JStr ''U1'')]),
      (''https://slack.com/api/users.info'', [(''user'', JStr ''U1'')])]"
  using
    get_user_info_cache
      [of "JStr ''U1''" "KStr ''U1''" init
          "demo_env (\<lambda>h r. Inr (JObj [(''ok'', JBool True), (''user'', JObj [(''name'', JStr ''alice'')])]))"
          "Inr (JObj [(''ok'', JBool True), (''user'', JObj [(''name'', JStr ''alice'')])])"
          "\<lparr>user_cache = Map.empty,
            calls = [(''https://slack.com/api/users.info'', [(''user'', JStr ''U1'')])],
            files = []\<rparr>"]
    get_user_info_cache
      [of "JStr ''U1''" "KStr ''U1''" init
          "demo_env (\<lambda>h r. Inl ''timed out'')"
          "Inl (Exception ''Request failed: timed out'')"
          "\<lparr>user_cache = Map.empty,
            calls = [(''https://slack.com/api/users.info'', [(''user'', JStr ''U1'')])],
            files = []\<rparr>"]
  by (simp add: get_user_info_def make_request_def demo_env_def init_def base_url_def)

section \<open>Reply stripping (C3)\<close>

text \<open>
  C3. When the replies request succeeds and the body's \<^verbatim>\<open>"messages"\<close> is a list of
  \<open>N\<close> entries, \<^verbatim>\<open>_fetch_thread_replies\<close> returns the entries after the first, in
  their order: \<open>N - 1\<close> of them, none when \<open>N\<close> is 0 or 1.
\<close>

theorem fetch_thread_replies_strips_first:
  assumes "make_request E st ''conversations.replies''
             [(''channel'', JStr channel_id), (''ts'', thread_ts), (''limit'', JInt 100)]
           = (Inr data, st')"
    and "py_get data ''messages'' (JArr []) = Inr (JArr all_messages)"
  shows "fetch_thread_replies E st channel_id thread_ts = (Inr (JArr (drop 1 all_messages)), st')
       \<and> length (drop 1 all_messages) = length all_messages - 1
       \<and> (length all_messages \<le> 1 \<longrightarrow> drop 1 all_messages = [])"
  using assms
  by (simp add: fetch_thread_replies_def and_then_def raise_or_def)

text \<open>The thread of \<open>msg_a\<close>: the parent echoed back and two replies.\<close>

theorem fetch_thread_replies_strips_first_witness:
  "fetch_thread_replies (demo_env demo_api) init ''C1'' (JStr ''1700000003.000200'') =
     (Inr (JArr [reply_1, reply_2]), init\<lparr>calls := [replies_a]\<rparr>)"
  using fetch_thread_replies_strips_first
    [where E = "demo_env demo_api" and st = init and channel_id = "''C1''"
       and thread_ts = "JStr ''1700000003.000200''"
       and data = "JObj [(''ok'', JBool True), (''messages'', JArr [msg_a, reply_1, reply_2])]"
       and st' = "init\<lparr>calls := [replies_a]\<rparr>"
       and all_messages = "[msg_a, reply_1, reply_2]"]
  by (simp add: make_request_def demo_defs)

section \<open>Pagination (C4)\<close>

lemma fetch_page_break:
  assumes "make_request E st ''conversations.history''
             ([(''channel'', JStr channel_id), (''oldest'', JStr oldest), (''limit'', JInt 100)]
              @ (if truthy cursor then [(''cursor'', cursor)] else [])) = (Inr data, st')"
    and "py_get data ''messages'' (JArr []) = Inr batch_messages"
    and "py_iter batch_messages = Inr batch"
    and "py_get data ''has_more'' JNull = Inr has_more"
  shows "\<not> truthy has_more \<Longrightarrow>
           fetch_page E st channel_id oldest cursor messages = (Inr (Break (messages @ batch)), st')"
    and "truthy has_more \<Longrightarrow> py_get data ''response_metadata'' (JObj []) = Inr metadata \<Longrightarrow>
         py_get metadata ''next_cursor'' JNull = Inr next_cursor \<Longrightarrow>
           fetch_page E st channel_id oldest cursor messages =
             (if truthy next_cursor then (Inr (Again next_cursor (messages @ batch)), st')
              else (Inr (Break (messages @ batch)), st'))"
  using assms
  by (simp_all add: fetch_page_def and_then_def raise_or_def Let_def)

text \<open>
  C4. Take a turn of the loop whose request succeeds and whose \<^verbatim>\<open>"messages"\<close> can be
  appended. If \<^verbatim>\<open>"has_more"\<close> is falsy, the loop returns the messages accumulated. If
  it is truthy and the metadata's \<^verbatim>\<open>"next_cursor"\<close> is falsy (missing, \<^verbatim>\<open>None\<close> or
  empty), the loop returns the messages accumulated as well, and no error. If both are
  truthy the loop does not end at this turn: it goes on from the new state with the
  new cursor.
\<close>

theorem paginate_stops:
  assumes "make_request E st ''conversations.history''
             ([(''channel'', JStr channel_id), (''oldest'', JStr oldest), (''limit'', JInt 100)]
              @ (if truthy cursor then [(''cursor'', cursor)] else [])) = (Inr data, st')"
    and "py_get data ''messages'' (JArr []) = Inr batch_messages"
    and "py_iter batch_messages = Inr batch"
    and "py_get data ''has_more'' JNull = Inr has_more"
  shows "(\<not> truthy has_more \<longrightarrow>
            paginate E channel_id oldest st cursor messages = Some (Inr (messages @ batch), st'))
       \<and> (\<forall>metadata next_cursor.
            truthy has_more \<and> py_get data ''response_metadata'' (JObj []) = Inr metadata
            \<and> py_get metadata ''next_cursor'' JNull = Inr next_cursor \<longrightarrow>
              (\<not> truthy next_cursor \<longrightarrow>
                 paginate E channel_id oldest st cursor messages = Some (Inr (messages @ batch), st'))
            \<and> (truthy next_cursor \<longrightarrow>
                 paginate E channel_id oldest st cursor messages =
                 paginate E channel_id oldest st' next_cursor (messages @ batch)))"
proof (intro conjI allI impI)
  assume "\<not> truthy has_more"
  from fetch_page_break(1) [OF assms this]
  show "paginate E channel_id oldest st cursor messages = Some (Inr (messages @ batch), st')"
    by (subst paginate.simps) simp
next
  fix metadata next_cursor
  assume h: "truthy has_more \<and> py_get data ''response_metadata'' (JObj []) = Inr metadata
            \<and> py_get metadata ''next_cursor'' JNull = Inr next_cursor"
  note pg = fetch_page_break(2) [OF assms, of metadata next_cursor messages]
  { assume "\<not> truthy next_cursor"
    with pg h show "paginate E channel_id oldest st cursor messages = Some (Inr (messages @ batch), st')"
      by (subst paginate.simps) simp }
  { assume "truthy next_cursor"
    with pg h show "paginate E channel_id oldest st cursor messages =
                 paginate E channel_id oldest st' next_cursor (messages @ batch)"
      by (subst paginate.simps) simp }
qed

lemma demo_fetch_page_1:
  "fetch_page (demo_env demo_api) init ''C1'' ''1700000000.0'' JNull [] =
     (Inr (Again (JStr ''c1'') [msg_a, msg_b]), init\<lparr>calls := [history_1]\<rparr>)"
  by (simp add: fetch_page_def make_request_def and_then_def raise_or_def Let_def demo_defs)

lemma demo_fetch_page_2:
  "fetch_page (demo_env demo_api) (init\<lparr>calls := [history_1]\<rparr>) ''C1'' ''1700000000.0''
     (JStr ''c1'') [msg_a, msg_b] =
     (Inr (Break [msg_a, msg_b, msg_c, msg_d]), init\<lparr>calls := [history_1, history_2]\<rparr>)"
  by (simp add: fetch_page_def make_request_def and_then_def raise_or_def Let_def demo_defs)

lemma demo_paginate:
  "paginate (demo_env demo_api) ''C1'' ''1700000000.0'' init JNull [] =
     Some (Inr [msg_a, msg_b, msg_c, msg_d], init\<lparr>calls := [history_1, history_2]\<rparr>)"
  by (subst paginate.simps, simp only: demo_fetch_page_1 prod.case sum.case turn.case,
      subst paginate.simps, simp only: demo_fetch_page_2 prod.case sum.case turn.case)

lemma demo_keys:
  "traverse (ts_key (demo_env demo_api)) [msg_a, msg_b, msg_c, msg_d] =
     Inr [1700000003.0002, 1700000001.0001, 1700000002.0001, 0]"
  by (simp add: ts_key_def msg_a_def msg_b_def msg_c_def msg_d_def demo_env_def
      dec_float_def digits_val_def)

text \<open>
  The first page goes on with the cursor, the second ends the loop; a page that
  announces more messages and gives no cursor ends it too.
\<close>

theorem paginate_stops_witness:
  "paginate (demo_env demo_api) ''C1'' ''1700000000.0'' init JNull [] =
     paginate (demo_env demo_api) ''C1'' ''1700000000.0'' (init\<lparr>calls := [history_1]\<rparr>)
       (JStr ''c1'') [msg_a, msg_b]
   \<and> paginate (demo_env demo_api) ''C1'' ''1700000000.0'' (init\<lparr>calls := [history_1]\<rparr>)
       (JStr ''c1'') [msg_a, msg_b] =
     Some (Inr [msg_a, msg_b, msg_c, msg_d], init\<lparr>calls := [history_1, history_2]\<rparr>)
   \<and> paginate (demo_env (\<lambda>h r. Inr page_stuck)) ''C1'' ''1700000000.0'' init JNull [msg_a] =
     Some (Inr [msg_a, msg_b], init\<lparr>calls := [history_1]\<rparr>)"
proof (intro conjI)
  let ?E = "demo_env demo_api"
  have a: "make_request ?E init ''conversations.history''
             ([(''channel'', JStr ''C1''), (''oldest'', JStr ''1700000000.0''), (''limit'', JInt 100)]
              @ (if truthy JNull then [(''cursor'', JNull)] else []))
           = (Inr page_1, init\<lparr>calls := [history_1]\<rparr>)"
    by (simp add: make_request_def Let_def demo_defs)
  have b: "py_get page_1 ''messages'' (JArr []) = Inr (JArr [msg_a, msg_b])"
    by (simp add: page_1_def)
  have c: "py_iter (JArr [msg_a, msg_b]) = Inr [msg_a, msg_b]" by simp
  have d: "py_get page_1 ''has_more'' JNull = Inr (JBool True)" by (simp add: page_1_def)
  have e: "py_get page_1 ''response_metadata'' (JObj []) = Inr (JObj [(''next_cursor'', JStr ''c1'')])"
    by (simp add: page_1_def)
  from paginate_stops [OF a b c d, of "[]"] e
  show "paginate ?E ''C1'' ''1700000000.0'' init JNull [] =
          paginate ?E ''C1'' ''1700000000.0'' (init\<lparr>calls := [history_1]\<rparr>)
            (JStr ''c1'') [msg_a, msg_b]"
    by simp
next
  let ?E = "demo_env demo_api"
  have a: "make_request ?E (init\<lparr>calls := [history_1]\<rparr>) ''conversations.history''
             ([(''channel'', JStr ''C1''), (''oldest'', JStr ''1700000000.0''), (''limit'', JInt 100)]
              @ (if truthy (JStr ''c1'') then [(''cursor'', JStr ''c1'')] else []))
           = (Inr page_2, init\<lparr>calls := [history_1, history_2]\<rparr>)"
    by (simp add: make_request_def Let_def demo_defs)
  have b: "py_get page_2 ''messages'' (JArr []) = Inr (JArr [msg_c, msg_d])"
    by (simp add: page_2_def)
  have c: "py_iter (JArr [msg_c, msg_d]) = Inr [msg_c, msg_d]" by simp
  have d: "py_get page_2 ''has_more'' JNull = Inr (JBool False)" by (simp add: page_2_def)
  from paginate_stops [OF a b c d, of "[msg_a, msg_b]"]
  show "paginate ?E ''C1'' ''1700000000.0'' (init\<lparr>calls := [history_1]\<rparr>)
          (JStr ''c1'') [msg_a, msg_b] =
        Some (Inr [msg_a, msg_b, msg_c, msg_d], init\<lparr>calls := [history_1, history_2]\<rparr>)"
    by simp
next
  let ?E = "demo_env (\<lambda>h r. Inr page_stuck)"
  have a: "make_request ?E init ''conversations.history''
             ([(''channel'', JStr ''C1''), (''oldest'', JStr ''1700000000.0''), (''limit'', JInt 100)]
              @ (if truthy JNull then [(''cursor'', JNull)] else []))
           = (Inr page_stuck, init\<lparr>calls := [history_1]\<rparr>)"
    by (simp add: make_request_def Let_def demo_defs page_stuck_def)
  have b: "py_get page_stuck ''messages'' (JArr []) = Inr (JArr [msg_b])"
    by (simp add: page_stuck_def)
  have c: "py_iter (JArr [msg_b]) = Inr [msg_b]" by simp
  have d: "py_get page_stuck ''has_more'' JNull = Inr (JBool True)" by (simp add: page_stuck_def)
  have e: "py_get page_stuck ''response_metadata'' (JObj []) = Inr (JObj [])"
    by (simp add: page_stuck_def)
  from paginate_stops [OF a b c d, of "[msg_a]"] e
  show "paginate ?E ''C1'' ''1700000000.0'' init JNull [msg_a] =
          Some (Inr [msg_a, msg_b], init\<lparr>calls := [history_1]\<rparr>)"
    by simp
qed

section \<open>Chronological order (C1)\<close>

lemma traverse_map_snd:
  "\<forall>p \<in> set zs. f (snd p) = Inr (fst p) \<Longrightarrow> traverse f (map snd zs) = Inr (map fst zs)"
  by (induction zs) auto

lemma traverse_length: "traverse f xs = Inr ys \<Longrightarrow> length ys = length xs"
  by (induction xs arbitrary: ys) (auto split: sum.splits)

lemma traverse_zip:
  "traverse f xs = Inr ys \<Longrightarrow> (k, m) \<in> set (zip ys xs) \<Longrightarrow> f m = Inr k"
  by (induction xs arbitrary: ys) (auto split: sum.splits)

lemma sort_by_ts_sorted:
  assumes "traverse (ts_key E) acc = Inr keys"
  shows "\<exists>ms ks. sort_by_ts E acc = Inr ms \<and> traverse (ts_key E) ms = Inr ks \<and> sorted ks
           \<and> mset ms = mset acc"
proof -
  let ?zs = "sort_key fst (zip keys acc)"
  have len: "length keys = length acc" using assms by (rule traverse_length)
  have s: "sort_by_ts E acc = Inr (map snd ?zs)"
    using assms by (simp add: sort_by_ts_def)
  have "\<forall>p \<in> set ?zs. ts_key E (snd p) = Inr (fst p)"
    using traverse_zip [OF assms] by auto
  then have t: "traverse (ts_key E) (map snd ?zs) = Inr (map fst ?zs)"
    by (rule traverse_map_snd)
  have so: "sorted (map fst ?zs)" by (rule sorted_sort_key)
  have "mset (map snd ?zs) = mset (map snd (zip keys acc))"
    by simp
  also have "\<dots> = mset acc" using len by simp
  finally show ?thesis using s t so by blast
qed

lemma py_setitem_ts:
  "py_setitem msg ''replies'' r = Inr msg' \<Longrightarrow> ts_key E msg' = ts_key E msg"
  by (cases msg) (auto simp: ts_key_def update_conv')

lemma fetch_replies_keys:
  "fetch_replies_for_messages E st channel_id ms = (Inr ms', st') \<Longrightarrow>
     map (ts_key E) ms' = map (ts_key E) ms"
proof (induction ms arbitrary: st ms' st')
  case Nil
  then show ?case by simp
next
  case (Cons msg rest)
  from Cons.prems show ?case
    by (auto simp: and_then_def raise_or_def py_setitem_ts
        split: sum.splits prod.splits if_splits dest!: Cons.IH)
qed

lemma traverse_cong_map:
  "map f xs = map f ys \<Longrightarrow> traverse f xs = traverse f ys"
proof (induction xs arbitrary: ys)
  case Nil
  then show ?case by simp
next
  case (Cons x xs)
  from Cons.prems obtain y ys' where ys: "ys = y # ys'" and fx: "f x = f y"
    and m: "map f xs = map f ys'" by (cases ys) auto
  from Cons.IH [OF m] have "traverse f xs = traverse f ys'" .
  with ys fx show ?case by (simp split: sum.splits)
qed

lemma ts_key_missing: "map_of kvs ''ts'' = None \<Longrightarrow> ts_key E (JObj kvs) = Inr 0"
  by (simp add: ts_key_def)

text \<open>
  C1. Whenever \<^verbatim>\<open>fetch_messages\<close> returns messages, with or without replies, their
  timestamps all parse and are non-decreasing as real numbers. It does return them,
  and all of them, when the loop has ended with messages whose timestamps parse. A
  message without \<^verbatim>\<open>"ts"\<close> has the key 0.
\<close>

theorem fetch_messages_sorted:
  "(\<forall>include_replies ms st'.
      fetch_messages E st channel_id days_back include_replies = Some (Inr ms, st') \<longrightarrow>
        (\<exists>ks. traverse (ts_key E) ms = Inr ks \<and> sorted ks))
   \<and> (\<forall>oldest acc st1 keys.
        oldest_of E days_back = Inr oldest
        \<and> paginate E channel_id oldest st JNull [] = Some (Inr acc, st1)
        \<and> traverse (ts_key E) acc = Inr keys \<longrightarrow>
          (\<exists>ms ks. fetch_messages E st channel_id days_back False = Some (Inr ms, st1)
             \<and> mset ms = mset acc \<and> traverse (ts_key E) ms = Inr ks \<and> sorted ks))
   \<and> (\<forall>kvs. map_of kvs ''ts'' = None \<longrightarrow> ts_key E (JObj kvs) = Inr 0)"
proof (intro conjI allI impI)
  fix include_replies ms st'
  assume f: "fetch_messages E st channel_id days_back include_replies = Some (Inr ms, st')"
  then obtain oldest acc st1 where
        p: "paginate E channel_id oldest st JNull [] = Some (Inr acc, st1)"
    and r: "raise_or (sort_by_ts E acc) st1 (\<lambda>messages.
                 if include_replies then fetch_replies_for_messages E st1 channel_id messages
                 else (Inr messages, st1)) = (Inr ms, st')"
    by (auto simp: fetch_messages_def split: sum.splits option.splits prod.splits)
  from r obtain sorted_ms where s: "sort_by_ts E acc = Inr sorted_ms"
    and ir: "(if include_replies then fetch_replies_for_messages E st1 channel_id sorted_ms
              else (Inr sorted_ms, st1)) = (Inr ms, st')"
    by (auto simp: raise_or_def split: sum.splits)
  from s obtain keys where k: "traverse (ts_key E) acc = Inr keys"
    by (auto simp: sort_by_ts_def split: sum.splits)
  from sort_by_ts_sorted [OF k] s obtain ks where
    ks: "traverse (ts_key E) sorted_ms = Inr ks" "sorted ks" by auto
  have "map (ts_key E) ms = map (ts_key E) sorted_ms"
    using ir fetch_replies_keys by (auto split: if_splits)
  then have "traverse (ts_key E) ms = traverse (ts_key E) sorted_ms"
    by (rule traverse_cong_map)
  with ks show "\<exists>ks. traverse (ts_key E) ms = Inr ks \<and> sorted ks" by auto
next
  fix oldest acc st1 keys
  assume h: "oldest_of E days_back = Inr oldest
        \<and> paginate E channel_id oldest st JNull [] = Some (Inr acc, st1)
        \<and> traverse (ts_key E) acc = Inr keys"
  then have k: "traverse (ts_key E) acc = Inr keys" by simp
  from sort_by_ts_sorted [OF k] obtain ms ks where
    "sort_by_ts E acc = Inr ms" "traverse (ts_key E) ms = Inr ks" "sorted ks" "mset ms = mset acc"
    by blast
  with h show "\<exists>ms ks. fetch_messages E st channel_id days_back False = Some (Inr ms, st1)
             \<and> mset ms = mset acc \<and> traverse (ts_key E) ms = Inr ks \<and> sorted ks"
    by (auto simp: fetch_messages_def raise_or_def)
next
  fix kvs :: "(string \<times> json) list"
  assume "map_of kvs ''ts'' = None"
  then show "ts_key E (JObj kvs) = Inr 0" by (rule ts_key_missing)
qed

lemma demo_oldest: "oldest_of (demo_env up) d = Inr ''1700000000.0''"
  by (simp add: demo_env_def)

lemma demo_sort:
  "sort_by_ts (demo_env demo_api) [msg_a, msg_b, msg_c, msg_d] = Inr [msg_d, msg_b, msg_c, msg_a]"
  unfolding sort_by_ts_def demo_keys by simp

text \<open>The two pages of the example, fetched and sorted.\<close>

theorem fetch_messages_sorted_witness:
  "fetch_messages (demo_env demo_api) init ''C1'' (JInt 7) False =
     Some (Inr [msg_d, msg_b, msg_c, msg_a], init\<lparr>calls := [history_1, history_2]\<rparr>)
   \<and> traverse (ts_key (demo_env demo_api)) [msg_d, msg_b, msg_c, msg_a] =
       Inr [0, 1700000001.0001, 1700000002.0001, 1700000003.0002]
   \<and> sorted [0 :: real, 1700000001.0001, 1700000002.0001, 1700000003.0002]"
proof -
  have f: "fetch_messages (demo_env demo_api) init ''C1'' (JInt 7) False =
     Some (Inr [msg_d, msg_b, msg_c, msg_a], init\<lparr>calls := [history_1, history_2]\<rparr>)"
    by (simp add: fetch_messages_def demo_oldest demo_paginate raise_or_def demo_sort)
  from fetch_messages_sorted
         [of "demo_env demo_api" init "''C1''" "JInt 7", THEN conjunct1, rule_format, OF f]
  obtain ks where ks: "traverse (ts_key (demo_env demo_api)) [msg_d, msg_b, msg_c, msg_a] = Inr ks"
    and s: "sorted ks" by blast
  have "traverse (ts_key (demo_env demo_api)) [msg_d, msg_b, msg_c, msg_a] =
       Inr [0, 1700000001.0001, 1700000002.0001, 1700000003.0002]"
    by (simp add: ts_key_def msg_a_def msg_b_def msg_c_def msg_d_def demo_env_def
      dec_float_def digits_val_def)
  with ks s f show ?thesis by simp
qed

section \<open>Bot labels (C8) and rich text (C7)\<close>

lemma py_eq_str: "py_eq a (JStr s) = (a = JStr s)"
  by (cases a) (auto split: json.splits)

text \<open>
  C8. For a message whose \<^verbatim>\<open>"subtype"\<close> is \<^verbatim>\<open>"bot_message"\<close>, \<^verbatim>\<open>_get_user_display\<close>
  returns the message's own \<^verbatim>\<open>"username"\<close> (\<^verbatim>\<open>"Bot"\<close> when the message has none),
  whatever the user ID, and returns the state as it was: no profile is looked up, no
  request is sent, the cache is unchanged.
\<close>

theorem get_user_display_bot:
  assumes "map_of kvs ''subtype'' = Some (JStr ''bot_message'')"
  shows "get_user_display E st user_id (JObj kvs) =
           (Inr (case map_of kvs ''username'' of Some u \<Rightarrow> u | None \<Rightarrow> JStr ''Bot''), st)"
  using assms by (simp add: get_user_display_def raise_or_def)

text \<open>The bot message of the example, which carries \<^verbatim>\<open>"DeployBot"\<close>.\<close>

theorem get_user_display_bot_witness:
  "get_user_display (demo_env demo_api) init (JStr ''U2'') msg_c = (Inr (JStr ''DeployBot''), init)"
  using get_user_display_bot
    [of "[(''ts'', JStr ''1700000002.000100''), (''subtype'', JStr ''bot_message''),
                 (''username'', JStr ''DeployBot''), (''text'', JStr ''deployed''),
                 (''thread_ts'', JStr ''1700000002.000100''), (''reply_count'', JInt 0)]"
        "demo_env demo_api" init "JStr ''U2''"]
  by (simp add: msg_c_def)

lemma for_each_append:
  "for_each f (xs @ ys) st =
     and_then (for_each f xs st) (\<lambda>a st.
     and_then (for_each f ys st) (\<lambda>b st. (Inr (a @ b), st)))"
  by (induction xs arbitrary: st) (auto simp: and_then_def split: prod.splits sum.splits)

lemma for_each_concat:
  assumes "traverse g xs = Inr yss"
    and "\<And>x ys st. g x = Inr ys \<Longrightarrow> f x st = for_each h ys st"
  shows "for_each f xs st = for_each h (concat yss) st"
  using assms(1)
proof (induction xs arbitrary: yss st)
  case Nil
  then show ?case by simp
next
  case (Cons x xs)
  from Cons.prems obtain ys yss' where g: "g x = Inr ys" and t: "traverse g xs = Inr yss'"
    and y: "yss = ys # yss'" by (auto split: sum.splits)
  have "for_each f (x # xs) st =
          and_then (for_each h ys st) (\<lambda>a st.
          and_then (for_each h (concat yss') st) (\<lambda>b st. (Inr (a @ b), st)))"
    using assms(2) [OF g] Cons.IH [OF t] by simp
  then show ?case by (simp add: y for_each_append)
qed

lemma render_element_items:
  "section_items element = Inr items \<Longrightarrow>
     render_element E element st = for_each (render_item E) items st"
  by (auto simp: section_items_def render_element_def raise_or_def split: sum.splits if_splits)

lemma render_block_items:
  assumes "block_items block = Inr items"
  shows "render_block E block st = for_each (render_item E) items st"
proof (cases "py_get block ''type'' JNull")
  case (Inl e)
  with assms show ?thesis by (simp add: block_items_def)
next
  case (Inr kind)
  show ?thesis
  proof (cases "py_eq kind (JStr ''rich_text'')")
    case False
    with Inr assms show ?thesis by (simp add: block_items_def render_block_def raise_or_def)
  next
    case True
    with Inr assms obtain els elements itemss where
      a: "py_get block ''elements'' (JArr []) = Inr els"
      and b: "py_iter els = Inr elements"
      and c: "traverse section_items elements = Inr itemss"
      and d: "items = concat itemss"
      by (auto simp: block_items_def split: sum.splits)
    have "for_each (render_element E) elements st = for_each (render_item E) (concat itemss) st"
      by (rule for_each_concat [OF c]) (rule render_element_items)
    with Inr True a b d show ?thesis by (simp add: render_block_def raise_or_def)
  qed
qed

lemma extract_items:
  assumes "rich_text_items blocks = Inr items"
  shows "extract_text_from_blocks E st blocks =
           and_then (for_each (render_item E) items st) (\<lambda>text_parts st.
             if text_parts \<noteq> [] then
               raise_or (py_join text_parts) st (\<lambda>text. (Inr (JStr text), st))
             else (Inr JNull, st))"
proof -
  from assms obtain bs itemss where a: "py_iter blocks = Inr bs"
    and c: "traverse block_items bs = Inr itemss" and d: "items = concat itemss"
    by (auto simp: rich_text_items_def split: sum.splits)
  have "for_each (render_block E) bs st = for_each (render_item E) (concat itemss) st"
    by (rule for_each_concat [OF c]) (rule render_block_items)
  with a d show ?thesis by (simp add: extract_text_from_blocks_def raise_or_def)
qed

lemma py_join_strs: "py_join (map JStr ss) = Inr (concat ss)"
  by (induction ss) auto

text \<open>
  C7, as the code has it. One item appends one part: a text item its text, a link item
  \<^verbatim>\<open>[label](url)\<close> with the URL as label when it has no text, an emoji item
  \<^verbatim>\<open>:name:\<close>, a user item \<^verbatim>\<open>@label\<close> where the label is the profile's display name,
  else its user name, else the ID (the ID alone when the profile is empty); an item of
  any other kind appends nothing. When the blocks are well formed, the renderer walks
  the items in block, element and item order, and parts of consecutive items are
  appended in that order; strings are joined with nothing between them. The result is
  \<^verbatim>\<open>None\<close> exactly when no part was appended; parts that are all empty strings give
  the empty string.
\<close>

theorem extract_text_from_blocks_renders:
  "(\<forall>kvs st. map_of kvs ''type'' = Some (JStr ''text'') \<longrightarrow>
      render_item E (JObj kvs) st =
        (Inr [case map_of kvs ''text'' of Some t \<Rightarrow> t | None \<Rightarrow> JStr []], st))
   \<and> (\<forall>kvs st. map_of kvs ''type'' = Some (JStr ''link'') \<longrightarrow>
      render_item E (JObj kvs) st =
        (Inr [JStr (''[''
                @ py_str E (case map_of kvs ''text'' of Some t \<Rightarrow> t
                            | None \<Rightarrow> (case map_of kvs ''url'' of Some u \<Rightarrow> u | None \<Rightarrow> JStr []))
                @ '']('' @ py_str E (case map_of kvs ''url'' of Some u \<Rightarrow> u | None \<Rightarrow> JStr [])
                @ '')'')], st))
   \<and> (\<forall>kvs st. map_of kvs ''type'' = Some (JStr ''emoji'') \<longrightarrow>
      render_item E (JObj kvs) st =
        (Inr [JStr ('':'' @ py_str E (case map_of kvs ''name'' of Some n \<Rightarrow> n | None \<Rightarrow> JStr [])
                @ '':'')], st))
   \<and> (\<forall>kvs st info st'.
        map_of kvs ''type'' = Some (JStr ''user'')
        \<and> get_user_info E st (case map_of kvs ''user_id'' of Some u \<Rightarrow> u | None \<Rightarrow> JStr ''unknown'')
            = (Inr info, st')
        \<and> \<not> truthy info \<longrightarrow>
      render_item E (JObj kvs) st =
        (Inr [JStr (''@'' @ py_str E (case map_of kvs ''user_id'' of Some u \<Rightarrow> u
                                      | None \<Rightarrow> JStr ''unknown''))], st'))
   \<and> (\<forall>kvs st ikvs pkvs st'.
        map_of kvs ''type'' = Some (JStr ''user'')
        \<and> get_user_info E st (case map_of kvs ''user_id'' of Some u \<Rightarrow> u | None \<Rightarrow> JStr ''unknown'')
            = (Inr (JObj ikvs), st')
        \<and> ikvs \<noteq> []
        \<and> (case map_of ikvs ''profile'' of Some p \<Rightarrow> p | None \<Rightarrow> JObj []) = JObj pkvs \<longrightarrow>
      render_item E (JObj kvs) st =
        (Inr [JStr (''@'' @ py_str E
                (py_or (case map_of pkvs ''display_name'' of Some d \<Rightarrow> d | None \<Rightarrow> JStr [])
                  (py_or (case map_of ikvs ''name'' of Some n \<Rightarrow> n | None \<Rightarrow> JStr [])
                     (case map_of kvs ''user_id'' of Some u \<Rightarrow> u | None \<Rightarrow> JStr ''unknown''))))],
         st'))
   \<and> (\<forall>kvs st.
        (case map_of kvs ''type'' of Some k \<Rightarrow> k | None \<Rightarrow> JNull)
          \<notin> {JStr ''text'', JStr ''link'', JStr ''user'', JStr ''emoji''} \<longrightarrow>
      render_item E (JObj kvs) st = (Inr [], st))
   \<and> (\<forall>blocks items st. rich_text_items blocks = Inr items \<longrightarrow>
      extract_text_from_blocks E st blocks =
        and_then (for_each (render_item E) items st) (\<lambda>text_parts st.
          if text_parts \<noteq> [] then
            raise_or (py_join text_parts) st (\<lambda>text. (Inr (JStr text), st))
          else (Inr JNull, st)))
   \<and> (\<forall>xs ys st. for_each (render_item E) (xs @ ys) st =
        and_then (for_each (render_item E) xs st) (\<lambda>a st.
        and_then (for_each (render_item E) ys st) (\<lambda>b st. (Inr (a @ b), st))))
   \<and> (\<forall>ss. py_join (map JStr ss) = Inr (concat ss))"
proof (intro conjI allI impI)
  fix kvs st
  assume "map_of kvs ''type'' = Some (JStr ''text'')"
  then show "render_item E (JObj kvs) st =
        (Inr [case map_of kvs ''text'' of Some t \<Rightarrow> t | None \<Rightarrow> JStr []], st)"
    by (simp add: render_item_def raise_or_def)
next
  fix kvs st
  assume "map_of kvs ''type'' = Some (JStr ''link'')"
  then show "render_item E (JObj kvs) st =
        (Inr [JStr (''[''
                @ py_str E (case map_of kvs ''text'' of Some t \<Rightarrow> t
                            | None \<Rightarrow> (case map_of kvs ''url'' of Some u \<Rightarrow> u | None \<Rightarrow> JStr []))
                @ '']('' @ py_str E (case map_of kvs ''url'' of Some u \<Rightarrow> u | None \<Rightarrow> JStr [])
                @ '')'')], st)"
    by (simp add: render_item_def raise_or_def)
next
  fix kvs st
  assume "map_of kvs ''type'' = Some (JStr ''emoji'')"
  then show "render_item E (JObj kvs) st =
        (Inr [JStr ('':'' @ py_str E (case map_of kvs ''name'' of Some n \<Rightarrow> n | None \<Rightarrow> JStr [])
                @ '':'')], st)"
    by (simp add: render_item_def raise_or_def)
next
  fix kvs st info st'
  assume "map_of kvs ''type'' = Some (JStr ''user'')
        \<and> get_user_info E st (case map_of kvs ''user_id'' of Some u \<Rightarrow> u | None \<Rightarrow> JStr ''unknown'')
            = (Inr info, st')
        \<and> \<not> truthy info"
  then show "render_item E (JObj kvs) st =
        (Inr [JStr (''@'' @ py_str E (case map_of kvs ''user_id'' of Some u \<Rightarrow> u
                                      | None \<Rightarrow> JStr ''unknown''))], st')"
    by (simp add: render_item_def raise_or_def and_then_def)
next
  fix kvs st ikvs pkvs st'
  assume "map_of kvs ''type'' = Some (JStr ''user'')
        \<and> get_user_info E st (case map_of kvs ''user_id'' of Some u \<Rightarrow> u | None \<Rightarrow> JStr ''unknown'')
            = (Inr (JObj ikvs), st')
        \<and> ikvs \<noteq> []
        \<and> (case map_of ikvs ''profile'' of Some p \<Rightarrow> p | None \<Rightarrow> JObj []) = JObj pkvs"
  then show "render_item E (JObj kvs) st =
        (Inr [JStr (''@'' @ py_str E
                (py_or (case map_of pkvs ''display_name'' of Some d \<Rightarrow> d | None \<Rightarrow> JStr [])
                  (py_or (case map_of ikvs ''name'' of Some n \<Rightarrow> n | None \<Rightarrow> JStr [])
                     (case map_of kvs ''user_id'' of Some u \<Rightarrow> u | None \<Rightarrow> JStr ''unknown''))))],
         st')"
    by (simp add: render_item_def raise_or_def and_then_def)
next
  fix kvs st
  assume "(case map_of kvs ''type'' of Some k \<Rightarrow> k | None \<Rightarrow> JNull)
          \<notin> {JStr ''text'', JStr ''link'', JStr ''user'', JStr ''emoji''}"
  then show "render_item E (JObj kvs) st = (Inr [], st)"
    by (simp add: render_item_def raise_or_def py_eq_str)
next
  fix blocks items st
  assume "rich_text_items blocks = Inr items"
  from extract_items [OF this, of E st]
  show "extract_text_from_blocks E st blocks =
        and_then (for_each (render_item E) items st) (\<lambda>text_parts st.
          if text_parts \<noteq> [] then
            raise_or (py_join text_parts) st (\<lambda>text. (Inr (JStr text), st))
          else (Inr JNull, st))"
    by simp
next
  fix xs ys st
  show "for_each (render_item E) (xs @ ys) st =
        and_then (for_each (render_item E) xs st) (\<lambda>a st.
        and_then (for_each (render_item E) ys st) (\<lambda>b st. (Inr (a @ b), st)))"
    by (rule for_each_append)
next
  fix ss
  show "py_join (map JStr ss) = Inr (concat ss)" by (rule py_join_strs)
qed

text \<open>
  The claim's \<^verbatim>\<open>None\<close> for blocks that produce no renderable text fails on a text item
  whose text is empty: the renderer returns the empty string.
\<close>

theorem extract_text_empty_item_counterexample:
  "extract_text_from_blocks (demo_env demo_api) init blocks_empty_text = (Inr (JStr []), init)
   \<and> extract_text_from_blocks (demo_env demo_api) init blocks_empty_text \<noteq> (Inr JNull, init)"
  by (simp add: extract_text_from_blocks_def render_block_def render_element_def render_item_def
      raise_or_def and_then_def blocks_empty_text_def)

text \<open>A text item, a link item and a mention of the known user, in one section.\<close>

theorem extract_text_from_blocks_renders_witness:
  "extract_text_from_blocks (demo_env demo_api) init blocks_f =
     (Inr (JStr ''Hello [docs](https://example.com)@alice''),
      init\<lparr>user_cache := [KStr ''U1'' \<mapsto> profile_1], calls := [users_info_1]\<rparr>)"
proof -
  have r: "rich_text_items blocks_f =
     Inr [JObj [(''type'', JStr ''text''), (''text'', JStr ''Hello '')],
          JObj [(''type'', JStr ''link''), (''url'', JStr ''https://example.com''),
                (''text'', JStr ''docs'')],
          JObj [(''type'', JStr ''user''), (''user_id'', JStr ''U1'')]]"
    by (simp add: rich_text_items_def block_items_def section_items_def blocks_f_def)
  note t = extract_text_from_blocks_renders [of "demo_env demo_api"]
  note e = t [THEN conjunct2, THEN conjunct2, THEN conjunct2, THEN conjunct2, THEN conjunct2,
              THEN conjunct2, THEN conjunct1, rule_format, OF r, of init]
  show ?thesis
    unfolding e
    by (simp add: render_item_def get_user_info_def make_request_def raise_or_def and_then_def
        py_or_def Let_def demo_defs users_info_1_def profile_1_def)
qed

section \<open>Standalone threads (C6, C10)\<close>

text \<open>
  C6. A thread parent whose attached replies have length zero (no \<^verbatim>\<open>"replies"\<close> key, or
  an empty one) is skipped when \<^verbatim>\<open>include_standalone\<close> is false: the turn of the loop
  returns the state as it was, so no file is opened or written, and the loop goes on
  with the skipped counter one higher and the exported counter as it was.
\<close>

theorem export_thread_skips_standalone:
  assumes "py_get parent_msg ''replies'' (JArr []) = Inr replies"
    and "py_len replies = Inr 0"
  shows "export_thread E st threads_dir channel_name channel_id False parent_msg = (Inr False, st)
       \<and> export_loop E threads_dir channel_name channel_id False (parent_msg # rest)
            (exported_count, skipped_count) st =
          export_loop E threads_dir channel_name channel_id False rest
            (exported_count, skipped_count + 1) st"
  using assms by (simp add: export_thread_def raise_or_def and_then_def)

text \<open>The bot message of the example has \<^verbatim>\<open>reply_count\<close> 0 and no replies attached.\<close>

theorem export_thread_skips_standalone_witness:
  "export_thread (demo_env demo_api) init ''exports/general/threads'' ''general'' ''C1'' False msg_c =
     (Inr False, init)
   \<and> export_loop (demo_env demo_api) ''exports/general/threads'' ''general'' ''C1'' False [msg_c]
        (0, 0) init = (Inr (0, 1), init)"
  using export_thread_skips_standalone
    [of msg_c "JArr []" "demo_env demo_api" init "''exports/general/threads''" "''general''" "''C1''"
        "[]" 0 0]
  by (simp add: msg_c_def export_thread_def raise_or_def and_then_def)

lemma export_loop_no_replies:
  assumes "\<forall>m \<in> set parents. \<exists>kvs. m = JObj kvs \<and> map_of kvs ''replies'' = None"
  shows "export_loop E threads_dir channel_name channel_id False parents (e, s) st =
           (Inr (e, s + length parents), st)"
  using assms
proof (induction parents arbitrary: s)
  case Nil
  then show ?case by simp
next
  case (Cons m parents)
  then obtain kvs where m: "m = JObj kvs" "map_of kvs ''replies'' = None" by auto
  have "export_thread E st threads_dir channel_name channel_id False m = (Inr False, st)"
    using m by (simp add: export_thread_def raise_or_def)
  with Cons show ?case by (simp add: and_then_def)
qed

lemma traverse_is_thread_parent:
  assumes "\<forall>m \<in> set messages. \<exists>kvs. m = JObj kvs"
  shows "traverse is_thread_parent messages =
           Inr (map (\<lambda>m. is_thread_parent m = Inr True) messages)"
  using assms
proof (induction messages)
  case Nil
  then show ?case by simp
next
  case (Cons m messages)
  then obtain kvs where "m = JObj kvs" by auto
  then have "is_thread_parent m = Inr (is_thread_parent m = Inr True)"
    by (simp add: is_thread_parent_def)
  with Cons show ?case by (auto split: sum.splits)
qed

lemma filter_zip_flags: "map fst (filter snd (zip xs (map p xs))) = filter p xs"
  by (induction xs) auto

text \<open>
  C10. When no message carries a \<^verbatim>\<open>"replies"\<close> key, as \<^verbatim>\<open>fetch_messages\<close> leaves them
  without \<^verbatim>\<open>include_replies\<close>, \<^verbatim>\<open>export_threads_individually\<close> with
  \<^verbatim>\<open>include_standalone\<close> false exports nothing, counts every thread parent as
  skipped and leaves the state as it was (no file), whatever \<^verbatim>\<open>"reply_count"\<close> says.
\<close>

theorem export_without_replies_key:
  assumes "\<forall>m \<in> set messages. \<exists>kvs. m = JObj kvs \<and> map_of kvs ''replies'' = None"
  shows "export_threads_individually E st messages output_dir channel_name channel_id False =
           (Inr (0, length (filter (\<lambda>m. is_thread_parent m = Inr True) messages)), st)"
proof -
  have d: "\<forall>m \<in> set messages. \<exists>kvs. m = JObj kvs" using assms by blast
  have p: "\<forall>m \<in> set (filter (\<lambda>m. is_thread_parent m = Inr True) messages).
             \<exists>kvs. m = JObj kvs \<and> map_of kvs ''replies'' = None"
    using assms by simp
  show ?thesis
    by (simp add: export_threads_individually_def raise_or_def traverse_is_thread_parent [OF d]
        filter_zip_flags export_loop_no_replies [OF p])
qed

text \<open>
  The four messages of the example as fetched without replies: three are thread
  parents (a message with neither \<^verbatim>\<open>"ts"\<close> nor \<^verbatim>\<open>"thread_ts"\<close> counts as one), the
  first of them with \<^verbatim>\<open>reply_count\<close> 2.
\<close>

theorem export_without_replies_key_witness:
  "export_threads_individually (demo_env demo_api) init [msg_a, msg_b, msg_c, msg_d]
     ''exports'' ''general'' ''C1'' False = (Inr (0, 3), init)
   \<and> py_get msg_a ''reply_count'' (JInt 0) = Inr (JInt 2)"
  using export_without_replies_key
    [of "[msg_a, msg_b, msg_c, msg_d]" "demo_env demo_api" init "''exports''" "''general''" "''C1''"]
  by (simp add: msg_a_def msg_b_def msg_c_def msg_d_def is_thread_parent_def)

section \<open>File names (C9)\<close>

lemma files_raise_or:
  "Q (files st) \<Longrightarrow> (\<And>a. Q (files (snd (f a)))) \<Longrightarrow> Q (files (snd (raise_or r st f)))"
  by (cases r) (simp_all add: raise_or_def)

lemma files_and_then:
  "Q (files (snd m)) \<Longrightarrow> (\<And>a s. Q (files s) \<Longrightarrow> Q (files (snd (f a s)))) \<Longrightarrow>
     Q (files (snd (and_then m f)))"
  by (cases m; cases "fst m") (simp_all add: and_then_def)

lemmas same_raise_or = files_raise_or [where Q = "\<lambda>fs. fs = F" for F]
lemmas same_and_then = files_and_then [where Q = "\<lambda>fs. fs = F" for F]

lemma files_make_request: "files (snd (make_request E st endpoint params)) = files st"
  by (simp add: make_request_def Let_def split: sum.splits)

lemma files_get_user_info: "files (snd (get_user_info E st user_id)) = files st"
proof -
  have "files (snd (make_request E st ''users.info'' [(''user'', user_id)])) = files st"
    by (rule files_make_request)
  then show ?thesis
    by (auto simp: get_user_info_def split: sum.splits option.splits prod.splits)
qed

lemma same_get_user_info: "files st = F \<Longrightarrow> files (snd (get_user_info E st user_id)) = F"
  by (simp add: files_get_user_info)

lemma same_get_user_display:
  "files st = F \<Longrightarrow> files (snd (get_user_display E st user_id message)) = F"
  unfolding get_user_display_def
  by (intro conjI impI same_raise_or same_and_then same_get_user_info | simp)+

lemma same_for_each:
  assumes "\<And>x s. files s = F \<Longrightarrow> files (snd (f x s)) = F"
  shows "files st = F \<Longrightarrow> files (snd (for_each f xs st)) = F"
proof (induction xs arbitrary: st)
  case Nil
  then show ?case by simp
next
  case (Cons x xs)
  show ?case
    unfolding for_each.simps
    by (intro same_and_then assms Cons | simp)+
qed

lemma same_render_item:
  "files st = F \<Longrightarrow> files (snd (render_item E item st)) = F"
  unfolding render_item_def
  by (intro conjI impI same_raise_or same_and_then same_get_user_info | simp)+

lemma same_render_element:
  "files st = F \<Longrightarrow> files (snd (render_element E element st)) = F"
  unfolding render_element_def
  by (intro conjI impI same_raise_or same_and_then same_for_each same_render_item | simp)+

lemma same_render_block:
  "files st = F \<Longrightarrow> files (snd (render_block E block st)) = F"
  unfolding render_block_def
  by (intro conjI impI same_raise_or same_and_then same_for_each same_render_element | simp)+

lemma same_extract_text_from_blocks:
  "files st = F \<Longrightarrow> files (snd (extract_text_from_blocks E st blocks)) = F"
  unfolding extract_text_from_blocks_def
  by (intro conjI impI same_raise_or same_and_then same_for_each same_render_block | simp)+

lemma same_add_repliers:
  "files st = F \<Longrightarrow> files (snd (add_repliers E replies names st)) = F"
proof (induction replies arbitrary: names st)
  case Nil
  then show ?case by simp
next
  case (Cons reply rest)
  show ?case
    unfolding add_repliers.simps
    by (intro conjI impI same_raise_or same_and_then same_get_user_display Cons | simp)+
qed

lemma same_get_thread_participants:
  "files st = F \<Longrightarrow> files (snd (get_thread_participants E st parent_msg)) = F"
  unfolding get_thread_participants_def
  by (intro conjI impI same_raise_or same_and_then same_get_user_display same_add_repliers | simp)+

lemma same_extract_thread_metadata:
  "files st = F \<Longrightarrow> files (snd (extract_thread_metadata E st parent_msg)) = F"
  unfolding extract_thread_metadata_def Let_def
  by (intro conjI impI same_raise_or same_and_then same_get_user_display same_get_thread_participants
      | simp)+

lemma append_last_snoc: "append_last c (F @ [(p, x)]) = F @ [(p, x @ c)]"
proof (induction F)
  case Nil
  then show ?case by simp
next
  case (Cons a F)
  then show ?case by (cases F) auto
qed

lemma append_last_Nil: "append_last [] F = F"
  by (cases F rule: rev_cases) (auto simp: append_last_snoc)

lemma append_last_twice: "append_last b (append_last a F) = append_last (a @ b) F"
  by (cases F rule: rev_cases) (auto simp: append_last_snoc)

lemma grown_refl: "grown F F"
  unfolding grown_def using append_last_Nil [of F] by metis

lemma grown_fwrite: "grown F (files st) \<Longrightarrow> grown F (files (fwrite s st))"
  unfolding grown_def fwrite_def by (auto simp: append_last_twice)

lemmas grown_raise_or = files_raise_or [where Q = "grown F" for F]
lemmas grown_and_then = files_and_then [where Q = "grown F" for F]

lemma grown_get_user_display:
  "grown F (files st) \<Longrightarrow> grown F (files (snd (get_user_display E st user_id message)))"
  by (simp add: same_get_user_display [OF refl])

lemma grown_extract_text_from_blocks:
  "grown F (files st) \<Longrightarrow> grown F (files (snd (extract_text_from_blocks E st blocks)))"
  by (simp add: same_extract_text_from_blocks [OF refl])

lemma grown_write_files:
  "grown F (files st) \<Longrightarrow> grown F (files (snd (write_files E level indent fs st)))"
proof (induction fs arbitrary: st)
  case Nil
  then show ?case by simp
next
  case (Cons file_obj rest)
  show ?case
    unfolding write_files.simps
    by (intro conjI impI grown_raise_or Cons grown_fwrite | simp)+
qed

lemma grown_write_text:
  "grown F (files st) \<Longrightarrow> grown F (files (snd (write_text E level indent text st)))"
  unfolding write_text_def by (cases "text") (auto intro: grown_fwrite)

lemma grown_write_message_md:
  "grown F (files st) \<Longrightarrow> grown F (files (snd (write_message_md E st message level)))"
  unfolding write_message_md_def Let_def
  by (intro conjI impI grown_raise_or grown_and_then grown_get_user_display
        grown_extract_text_from_blocks grown_write_files grown_write_text grown_fwrite
      | simp only: snd_conv split: if_split | assumption)+

lemma grown_write_replies:
  "grown F (files st) \<Longrightarrow> grown F (files (snd (write_replies E replies st)))"
proof (induction replies arbitrary: st)
  case Nil
  then show ?case by simp
next
  case (Cons reply rest)
  show ?case
    unfolding write_replies.simps
    by (intro conjI impI grown_and_then grown_write_message_md Cons grown_fwrite | simp)+
qed

lemma grown_write_thread_file:
  "grown F (files st) \<Longrightarrow>
     grown F (files (snd (write_thread_file E st channel_name channel_id md replies n parent_msg)))"
  unfolding write_thread_file_def Let_def
  by (intro conjI impI grown_raise_or grown_and_then grown_extract_text_from_blocks
        grown_write_message_md grown_write_replies grown_fwrite
      | simp only: snd_conv split: if_split | assumption)+

lemma extract_thread_metadata_id:
  "extract_thread_metadata E st parent_msg = (Inr md, s1) \<Longrightarrow>
     py_get parent_msg ''ts'' (JStr []) = Inr (thread_id md)"
  by (auto simp: extract_thread_metadata_def raise_or_def and_then_def Let_def
      split: sum.splits prod.splits)

lemma and_then_const_snd: "snd (and_then m (\<lambda>_ s. (Inr b, s))) = snd m"
  by (cases m; cases "fst m") (simp_all add: and_then_def)

lemma and_then_const_fst: "fst (and_then m (\<lambda>_ s. (Inr True, s))) \<noteq> Inr False"
  by (cases m; cases "fst m") (simp_all add: and_then_def)

lemma export_thread_files:
  assumes "export_thread E st td cn ci inc parent_msg = (r, st')"
  shows "(files st' = files st \<and> r \<noteq> Inr True)
       \<or> (r \<noteq> Inr False \<and>
           (\<exists>T c. py_get parent_msg ''ts'' (JStr []) = Inr (JStr T)
              \<and> files st' = files st @ [(joinpath E td (''thread_'' @ normalize_ts T @ ''.md''), c)]))"
proof (cases "py_get parent_msg ''replies'' (JArr [])")
  case (Inl e)
  with assms show ?thesis by (auto simp: export_thread_def raise_or_def)
next
  case replies: (Inr replies)
  show ?thesis
  proof (cases "py_len replies")
    case (Inl e)
    with assms replies show ?thesis by (auto simp: export_thread_def raise_or_def)
  next
    case n: (Inr n)
    show ?thesis
    proof (cases "\<not> n > 0 \<and> \<not> inc")
      case True
      with assms replies n show ?thesis by (auto simp: export_thread_def raise_or_def)
    next
      case go: False
      obtain mr s1 where em: "extract_thread_metadata E st parent_msg = (mr, s1)"
        by (cases "extract_thread_metadata E st parent_msg") auto
      have f1: "files s1 = files st"
        using same_extract_thread_metadata [OF refl, of E st parent_msg] em by simp
      show ?thesis
      proof (cases mr)
        case (Inl e)
        with assms replies n go em f1 show ?thesis
          by (auto simp: export_thread_def raise_or_def and_then_def)
      next
        case md: (Inr md)
        have ts: "py_get parent_msg ''ts'' (JStr []) = Inr (thread_id md)"
          using em md extract_thread_metadata_id by simp
        show ?thesis
        proof (cases "py_replace_dot (thread_id md)")
          case (Inl e)
          with assms replies n go em md f1 show ?thesis
            by (auto simp: export_thread_def raise_or_def and_then_def)
        next
          case tid: (Inr tid)
          then obtain T where T: "thread_id md = JStr T" "tid = normalize_ts T"
            by (cases "thread_id md") auto
          let ?path = "joinpath E td (''thread_'' @ normalize_ts T @ ''.md'')"
          let ?w = "write_thread_file E (open_w ?path s1) cn ci md replies n parent_msg"
          have res: "(r, st') = and_then ?w (\<lambda>_ s. (Inr True, s))"
            using assms replies n go em md tid T
            by (auto simp: export_thread_def raise_or_def and_then_def Let_def)
          have "st' = snd ?w" using and_then_const_snd [of ?w True] res by (metis snd_conv)
          moreover have "grown (files (open_w ?path s1)) (files (snd ?w))"
            by (rule grown_write_thread_file [OF grown_refl])
          ultimately obtain c where "files st' = append_last c (files st @ [(?path, [])])"
            using f1 by (auto simp: grown_def open_w_def)
          then have "files st' = files st @ [(?path, c)]" by (simp add: append_last_snoc)
          moreover have "r \<noteq> Inr False"
            using and_then_const_fst [of ?w] res by (metis fst_conv)
          ultimately show ?thesis using ts T by auto
        qed
      qed
    qed
  qed
qed

lemma export_loop_files:
  "export_loop E td cn ci inc parents counts st = (r, st') \<Longrightarrow>
     \<exists>new. files st' = files st @ new
       \<and> (\<forall>pc \<in> set new. \<exists>m T. m \<in> set parents \<and> py_get m ''ts'' (JStr []) = Inr (JStr T)
             \<and> fst pc = joinpath E td (''thread_'' @ normalize_ts T @ ''.md''))
       \<and> (\<forall>e s. r = Inr (e, s) \<longrightarrow> e = fst counts + length new)"
proof (induction parents arbitrary: counts st)
  case Nil
  then show ?case by auto
next
  case (Cons p parents)
  obtain r1 s1 where et: "export_thread E st td cn ci inc p = (r1, s1)"
    by (cases "export_thread E st td cn ci inc p") auto
  note ef = export_thread_files [OF et]
  show ?case
  proof (cases r1)
    case (Inl e)
    with Cons.prems et have rs: "r = Inl e" "st' = s1" by (auto simp: and_then_def)
    from ef Inl consider
        (same) "files s1 = files st"
      | (opened) T c where "py_get p ''ts'' (JStr []) = Inr (JStr T)"
          "files s1 = files st @ [(joinpath E td (''thread_'' @ normalize_ts T @ ''.md''), c)]"
      by auto
    then show ?thesis
    proof cases
      case same
      with rs show ?thesis by auto
    next
      case opened
      let ?pc = "(joinpath E td (''thread_'' @ normalize_ts T @ ''.md''), c)"
      have "\<exists>m T'. m \<in> set (p # parents) \<and> py_get m ''ts'' (JStr []) = Inr (JStr T')
             \<and> fst ?pc = joinpath E td (''thread_'' @ normalize_ts T' @ ''.md'')"
        using opened(1) by (intro exI [of _ p] exI [of _ T]) simp
      with opened rs show ?thesis by (intro exI [of _ "[?pc]"]) auto
    qed
  next
    case (Inr exported)
    let ?counts = "if exported then (fst counts + 1, snd counts) else (fst counts, snd counts + 1)"
    from Cons.prems et Inr
    have "export_loop E td cn ci inc parents ?counts s1 = (r, st')"
      by (auto simp: and_then_def)
    from Cons.IH [OF this] obtain new where
      n1: "files st' = files s1 @ new"
      and n2: "\<forall>pc \<in> set new. \<exists>m T. m \<in> set parents \<and> py_get m ''ts'' (JStr []) = Inr (JStr T)
             \<and> fst pc = joinpath E td (''thread_'' @ normalize_ts T @ ''.md'')"
      and n3: "\<forall>e s. r = Inr (e, s) \<longrightarrow> e = fst ?counts + length new"
      by blast
    have n2': "\<forall>pc \<in> set new. \<exists>m T. m \<in> set (p # parents)
             \<and> py_get m ''ts'' (JStr []) = Inr (JStr T)
             \<and> fst pc = joinpath E td (''thread_'' @ normalize_ts T @ ''.md'')"
      using n2 by (meson list.set_intros(2))
    from ef Inr consider
        (skip) "files s1 = files st" "\<not> exported"
      | (opened) T c where "exported" "py_get p ''ts'' (JStr []) = Inr (JStr T)"
          "files s1 = files st @ [(joinpath E td (''thread_'' @ normalize_ts T @ ''.md''), c)]"
      by auto
    then show ?thesis
    proof cases
      case skip
      have "files st' = files st @ new" using skip n1 by simp
      moreover have "\<forall>e s. r = Inr (e, s) \<longrightarrow> e = fst counts + length new"
        using n3 skip(2) by simp
      ultimately show ?thesis using n2' by blast
    next
      case opened
      let ?pc = "(joinpath E td (''thread_'' @ normalize_ts T @ ''.md''), c)"
      have "\<exists>m T'. m \<in> set (p # parents) \<and> py_get m ''ts'' (JStr []) = Inr (JStr T')
             \<and> fst ?pc = joinpath E td (''thread_'' @ normalize_ts T' @ ''.md'')"
        using opened(2) by (intro exI [of _ p] exI [of _ T]) simp
      then have "\<forall>pc \<in> set (?pc # new). \<exists>m T. m \<in> set (p # parents)
             \<and> py_get m ''ts'' (JStr []) = Inr (JStr T)
             \<and> fst pc = joinpath E td (''thread_'' @ normalize_ts T @ ''.md'')"
        using n2' by simp
      moreover have "files st' = files st @ (?pc # new)" using opened n1 by simp
      moreover have "\<forall>e s. r = Inr (e, s) \<longrightarrow> e = fst counts + length (?pc # new)"
        using n3 opened(1) by simp
      ultimately show ?thesis by blast
    qed
  qed
qed

lemma traverse_flags:
  "traverse f xs = Inr flags \<Longrightarrow> m \<in> set (map fst (filter snd (zip xs flags))) \<Longrightarrow>
     m \<in> set xs \<and> f m = Inr True"
proof (induction xs arbitrary: flags)
  case Nil
  then show ?case by simp
next
  case (Cons x xs)
  from Cons.prems(1) obtain b flags' where fx: "f x = Inr b" and t: "traverse f xs = Inr flags'"
    and fl: "flags = b # flags'" by (auto split: sum.splits)
  from Cons.prems(2) fl have "(b \<and> m = x) \<or> m \<in> set (map fst (filter snd (zip xs flags')))"
    by (auto split: if_splits)
  then show ?case
  proof
    assume "b \<and> m = x"
    with fx show ?thesis by simp
  next
    assume "m \<in> set (map fst (filter snd (zip xs flags')))"
    from Cons.IH [OF t this] show ?thesis by simp
  qed
qed

lemma normalize_ts_idem: "normalize_ts (normalize_ts s) = normalize_ts s"
  by (simp add: normalize_ts_def)

lemma normalize_ts_no_dot: "CHR ''.'' \<notin> set (normalize_ts s)"
  by (auto simp: normalize_ts_def)

text \<open>
  Whatever the outcome of the export, the files already there are left as they are,
  and every file opened is named after the timestamp of a thread parent among the
  messages.
\<close>

lemma export_files_named:
  "(\<forall>r st'.
      export_threads_individually E st messages output_dir channel_name channel_id
        include_standalone = (r, st') \<longrightarrow>
      (\<exists>new. files st' = files st @ new
         \<and> (\<forall>pc \<in> set new. \<exists>m T.
               m \<in> set messages \<and> is_thread_parent m = Inr True
               \<and> py_get m ''ts'' (JStr []) = Inr (JStr T)
               \<and> fst pc = joinpath E (joinpath E (joinpath E output_dir channel_name) ''threads'')
                            (''thread_'' @ normalize_ts T @ ''.md''))
         \<and> (\<forall>e s. r = Inr (e, s) \<longrightarrow> length new = e)))
   \<and> (\<forall>s. normalize_ts (normalize_ts s) = normalize_ts s)
   \<and> (\<forall>s. length (normalize_ts s) = length s \<and> CHR ''.'' \<notin> set (normalize_ts s)
          \<and> (\<forall>i < length s. normalize_ts s ! i = (if s ! i = CHR ''.'' then CHR ''_'' else s ! i)))"
proof (intro conjI allI impI)
  fix r st'
  assume ex: "export_threads_individually E st messages output_dir channel_name channel_id
        include_standalone = (r, st')"
  let ?td = "joinpath E (joinpath E output_dir channel_name) ''threads''"
  show "\<exists>new. files st' = files st @ new
         \<and> (\<forall>pc \<in> set new. \<exists>m T.
               m \<in> set messages \<and> is_thread_parent m = Inr True
               \<and> py_get m ''ts'' (JStr []) = Inr (JStr T)
               \<and> fst pc = joinpath E ?td (''thread_'' @ normalize_ts T @ ''.md''))
         \<and> (\<forall>e s. r = Inr (e, s) \<longrightarrow> length new = e)"
  proof (cases "traverse is_thread_parent messages")
    case (Inl e)
    with ex have "st' = st" "r = Inl e"
      by (auto simp: export_threads_individually_def raise_or_def Let_def)
    then show ?thesis by auto
  next
    case (Inr flags)
    let ?parents = "map fst (filter snd (zip messages flags))"
    from ex Inr have "export_loop E ?td channel_name channel_id include_standalone ?parents (0, 0) st
        = (r, st')"
      by (auto simp: export_threads_individually_def raise_or_def Let_def)
    from export_loop_files [OF this] obtain new where
      n1: "files st' = files st @ new"
      and n2: "\<forall>pc \<in> set new. \<exists>m T. m \<in> set ?parents \<and> py_get m ''ts'' (JStr []) = Inr (JStr T)
             \<and> fst pc = joinpath E ?td (''thread_'' @ normalize_ts T @ ''.md'')"
      and n3: "\<forall>e s. r = Inr (e, s) \<longrightarrow> e = fst (0 :: nat, 0 :: nat) + length new"
      by blast
    have "\<forall>pc \<in> set new. \<exists>m T.
               m \<in> set messages \<and> is_thread_parent m = Inr True
               \<and> py_get m ''ts'' (JStr []) = Inr (JStr T)
               \<and> fst pc = joinpath E ?td (''thread_'' @ normalize_ts T @ ''.md'')"
    proof
      fix pc assume "pc \<in> set new"
      with n2 obtain m T where m: "m \<in> set ?parents" "py_get m ''ts'' (JStr []) = Inr (JStr T)"
        "fst pc = joinpath E ?td (''thread_'' @ normalize_ts T @ ''.md'')" by blast
      from traverse_flags [OF Inr m(1)] m(2,3)
      show "\<exists>m T. m \<in> set messages \<and> is_thread_parent m = Inr True
               \<and> py_get m ''ts'' (JStr []) = Inr (JStr T)
               \<and> fst pc = joinpath E ?td (''thread_'' @ normalize_ts T @ ''.md'')" by blast
    qed
    with n1 n3 show ?thesis by (intro exI [of _ new]) auto
  qed
next
  fix s :: string show "normalize_ts (normalize_ts s) = normalize_ts s" by (rule normalize_ts_idem)
next
  fix s :: string show "length (normalize_ts s) = length s" by (simp add: normalize_ts_def)
next
  fix s :: string show "CHR ''.'' \<notin> set (normalize_ts s)" by (rule normalize_ts_no_dot)
next
  fix s :: string and i assume "i < length s"
  then show "normalize_ts s ! i = (if s ! i = CHR ''.'' then CHR ''_'' else s ! i)"
    by (simp add: normalize_ts_def)
qed

lemmas export_defs =
  export_threads_individually_def export_thread_def extract_thread_metadata_def
  get_thread_participants_def set_add_def py_sorted_def get_user_display_def get_user_info_def
  make_request_def write_thread_file_def write_message_md_def write_text_def
  is_thread_parent_def and_then_def raise_or_def py_or_def Let_def open_w_def fwrite_def
  extract_text_from_blocks_def

lemma demo_export_result:
  "fst (export_threads_individually (demo_env demo_api) init [thread_a, msg_b, msg_c]
          ''exports'' ''general'' ''C1'' False) = Inr (1, 1)"
  by (simp add: export_defs thread_a_def msg_b_def msg_c_def reply_1_def reply_2_def demo_defs
      dec_float_def digits_val_def)

lemma demo_export_files:
  "map fst (files (snd (export_threads_individually (demo_env demo_api) init [thread_a, msg_b, msg_c]
          ''exports'' ''general'' ''C1'' False))) =
     [''exports/general/threads/thread_1700000003_000200.md'']"
  by (simp add: export_defs thread_a_def msg_b_def msg_c_def reply_1_def reply_2_def demo_defs
      dec_float_def digits_val_def normalize_ts_def)

lemma export_thread_flag:
  "export_thread E st td cn ci inc m = (Inr b, st') \<Longrightarrow> b = (has_replies m \<or> inc)"
  by (auto simp: export_thread_def has_replies_def raise_or_def and_then_def Let_def
      split: sum.splits prod.splits if_splits)

lemma export_thread_own_file:
  assumes "export_thread E st td cn ci inc m = (Inr b, st')"
  shows "b = (has_replies m \<or> inc)"
    and "b \<Longrightarrow> \<exists>T c. py_get m ''ts'' (JStr []) = Inr (JStr T)
            \<and> files st' = files st @ [(joinpath E td (''thread_'' @ normalize_ts T @ ''.md''), c)]"
    and "\<not> b \<Longrightarrow> files st' = files st"
  using export_thread_flag [OF assms] export_thread_files [OF assms] by auto

lemma ts_of_str: "py_get m ''ts'' (JStr []) = Inr (JStr T) \<Longrightarrow> ts_of m = T"
  by (simp add: ts_of_def)

lemma export_loop_own_files:
  "export_loop E td cn ci inc parents counts st = (Inr (e, s), st') \<Longrightarrow>
     (\<exists>new. files st' = files st @ new
        \<and> map fst new =
            map (\<lambda>m. joinpath E td (''thread_'' @ normalize_ts (ts_of m) @ ''.md''))
              (filter (\<lambda>m. has_replies m \<or> inc) parents))
     \<and> (\<forall>m \<in> set (filter (\<lambda>m. has_replies m \<or> inc) parents).
           py_get m ''ts'' (JStr []) = Inr (JStr (ts_of m)))
     \<and> e = fst counts + length (filter (\<lambda>m. has_replies m \<or> inc) parents)
     \<and> s = snd counts + length (filter (\<lambda>m. \<not> (has_replies m \<or> inc)) parents)"
proof (induction parents arbitrary: counts st)
  case Nil
  then show ?case by auto
next
  case (Cons p parents)
  obtain r1 s1 where et: "export_thread E st td cn ci inc p = (r1, s1)"
    by (cases "export_thread E st td cn ci inc p") auto
  from Cons.prems et obtain b where r1: "r1 = Inr b"
    by (cases r1) (auto simp: and_then_def)
  let ?counts = "if b then (fst counts + 1, snd counts) else (fst counts, snd counts + 1)"
  note own = export_thread_own_file [OF et [unfolded r1]]
  from Cons.prems et r1
  have loop: "export_loop E td cn ci inc parents ?counts s1 = (Inr (e, s), st')"
    by (auto simp: and_then_def)
  from Cons.IH [OF loop] obtain new where
    n1: "files st' = files s1 @ new"
    and n2: "map fst new =
            map (\<lambda>m. joinpath E td (''thread_'' @ normalize_ts (ts_of m) @ ''.md''))
              (filter (\<lambda>m. has_replies m \<or> inc) parents)"
    and n3: "\<forall>m \<in> set (filter (\<lambda>m. has_replies m \<or> inc) parents).
           py_get m ''ts'' (JStr []) = Inr (JStr (ts_of m))"
    and n4: "e = fst ?counts + length (filter (\<lambda>m. has_replies m \<or> inc) parents)"
    and n5: "s = snd ?counts + length (filter (\<lambda>m. \<not> (has_replies m \<or> inc)) parents)"
    by blast
  show ?case
  proof (cases b)
    case False
    with own have "files s1 = files st" "\<not> (has_replies p \<or> inc)" by auto
    with n1 n2 n3 n4 n5 False show ?thesis by auto
  next
    case True
    with own obtain T c where T: "py_get p ''ts'' (JStr []) = Inr (JStr T)"
      and f: "files s1 = files st @ [(joinpath E td (''thread_'' @ normalize_ts T @ ''.md''), c)]"
      and ex: "has_replies p \<or> inc" by auto
    have tT: "ts_of p = T" using T by (rule ts_of_str)
    let ?pc = "(joinpath E td (''thread_'' @ normalize_ts T @ ''.md''), c)"
    have a: "files st' = files st @ (?pc # new)" using n1 f by simp
    have b: "map fst (?pc # new) =
            map (\<lambda>m. joinpath E td (''thread_'' @ normalize_ts (ts_of m) @ ''.md''))
              (filter (\<lambda>m. has_replies m \<or> inc) (p # parents))"
      using n2 ex tT by simp
    have c: "\<forall>m \<in> set (filter (\<lambda>m. has_replies m \<or> inc) (p # parents)).
           py_get m ''ts'' (JStr []) = Inr (JStr (ts_of m))"
      using n3 T tT by auto
    have d: "e = fst counts + length (filter (\<lambda>m. has_replies m \<or> inc) (p # parents))"
      using n4 True ex by simp
    have e: "s = snd counts + length (filter (\<lambda>m. \<not> (has_replies m \<or> inc)) (p # parents))"
      using n5 True ex by simp
    from a b c d e show ?thesis by blast
  qed
qed

lemma traverse_filter:
  "traverse f xs = Inr flags \<Longrightarrow>
     map fst (filter snd (zip xs flags)) = filter (\<lambda>m. f m = Inr True) xs"
proof (induction xs arbitrary: flags)
  case Nil
  then show ?case by simp
next
  case (Cons x xs)
  from Cons.prems obtain b flags' where fx: "f x = Inr b" and t: "traverse f xs = Inr flags'"
    and fl: "flags = b # flags'" by (auto split: sum.splits)
  from Cons.IH [OF t] fx fl show ?case by simp
qed

lemma extract_thread_metadata_len:
  "extract_thread_metadata E st m = (Inr md, s1) \<Longrightarrow>
     \<exists>replies n. py_get m ''replies'' (JArr []) = Inr replies \<and> py_len replies = Inr n"
  by (auto simp: extract_thread_metadata_def raise_or_def and_then_def Let_def
      split: sum.splits prod.splits)

lemma export_thread_opens:
  assumes ex: "has_replies m \<or> inc"
    and em: "extract_thread_metadata E st m = (Inr md, s1)"
    and ts: "py_get m ''ts'' (JStr []) = Inr (JStr T)"
  shows "\<exists>c. files (snd (export_thread E st td cn ci inc m)) =
           files st @ [(joinpath E td (''thread_'' @ normalize_ts T @ ''.md''), c)]"
proof -
  from extract_thread_metadata_len [OF em] obtain replies n where
    r: "py_get m ''replies'' (JArr []) = Inr replies" and n: "py_len replies = Inr n" by blast
  from ex r n have go: "\<not> (\<not> n > 0 \<and> \<not> inc)" by (auto simp: has_replies_def)
  have id: "thread_id md = JStr T" using extract_thread_metadata_id [OF em] ts by simp
  have f1: "files s1 = files st"
    using same_extract_thread_metadata [OF refl, of E st m] em by simp
  let ?path = "joinpath E td (''thread_'' @ normalize_ts T @ ''.md'')"
  let ?w = "write_thread_file E (open_w ?path s1) cn ci md replies n m"
  have "export_thread E st td cn ci inc m = and_then ?w (\<lambda>_ s. (Inr True, s))"
    using r n go em id by (auto simp: export_thread_def raise_or_def and_then_def Let_def)
  then have "snd (export_thread E st td cn ci inc m) = snd ?w"
    by (simp add: and_then_const_snd)
  moreover have "grown (files (open_w ?path s1)) (files (snd ?w))"
    by (rule grown_write_thread_file [OF grown_refl])
  ultimately obtain c where
    "files (snd (export_thread E st td cn ci inc m)) = append_last c (files st @ [(?path, [])])"
    using f1 by (auto simp: grown_def open_w_def)
  then show ?thesis by (auto simp: append_last_snoc)
qed

text \<open>
  C9. When \<^verbatim>\<open>export_threads_individually\<close> ends without exception, the files it has
  opened are, in order, one for each thread parent that has replies (or each thread
  parent, with \<^verbatim>\<open>include_standalone\<close>), and the file of a parent is named after that
  parent's own timestamp \<open>T\<close>: \<^verbatim>\<open>thread_<normalize(T)>.md\<close> joined to
  \<^verbatim>\<open>output_dir / channel_name / "threads"\<close>; the counters are the numbers of parents
  exported and skipped. For one parent, the file with that name is opened as soon as
  its metadata has been extracted, whatever happens afterwards. Whatever the outcome,
  the files already there are left as they are and every file opened is named after
  the timestamp of a thread parent. \<open>normalize_ts\<close> keeps the length, turns each period
  into an underscore and nothing else, and is idempotent.
\<close>

theorem export_own_file_names:
  "(\<forall>e s st'.
      export_threads_individually E st messages output_dir channel_name channel_id
        include_standalone = (Inr (e, s), st') \<longrightarrow>
      (\<exists>new. files st' = files st @ new
         \<and> map fst new =
             map (\<lambda>m. thread_file_name E output_dir channel_name (ts_of m))
               (filter (\<lambda>m. has_replies m \<or> include_standalone)
                  (filter (\<lambda>m. is_thread_parent m = Inr True) messages)))
      \<and> (\<forall>m \<in> set messages.
            is_thread_parent m = Inr True \<and> (has_replies m \<or> include_standalone) \<longrightarrow>
            py_get m ''ts'' (JStr []) = Inr (JStr (ts_of m)))
      \<and> e = length (filter (\<lambda>m. has_replies m \<or> include_standalone)
                      (filter (\<lambda>m. is_thread_parent m = Inr True) messages))
      \<and> s = length (filter (\<lambda>m. \<not> (has_replies m \<or> include_standalone))
                      (filter (\<lambda>m. is_thread_parent m = Inr True) messages)))
   \<and> (\<forall>m s0 md s1 T.
        (has_replies m \<or> include_standalone)
        \<and> extract_thread_metadata E s0 m = (Inr md, s1)
        \<and> py_get m ''ts'' (JStr []) = Inr (JStr T) \<longrightarrow>
        (\<exists>c. files (snd (export_thread E s0
                 (joinpath E (joinpath E output_dir channel_name) ''threads'')
                 channel_name channel_id include_standalone m)) =
              files s0 @ [(thread_file_name E output_dir channel_name T, c)]))
   \<and> (\<forall>r st'.
        export_threads_individually E st messages output_dir channel_name channel_id
          include_standalone = (r, st') \<longrightarrow>
        (\<exists>new. files st' = files st @ new
           \<and> (\<forall>pc \<in> set new. \<exists>m T.
                 m \<in> set messages \<and> is_thread_parent m = Inr True
                 \<and> py_get m ''ts'' (JStr []) = Inr (JStr T)
                 \<and> fst pc = thread_file_name E output_dir channel_name T)))
   \<and> (\<forall>s. normalize_ts (normalize_ts s) = normalize_ts s)
   \<and> (\<forall>s. length (normalize_ts s) = length s \<and> CHR ''.'' \<notin> set (normalize_ts s)
          \<and> (\<forall>i < length s. normalize_ts s ! i = (if s ! i = CHR ''.'' then CHR ''_'' else s ! i)))"
proof (intro conjI allI impI)
  fix e s st'
  assume ex: "export_threads_individually E st messages output_dir channel_name channel_id
        include_standalone = (Inr (e, s), st')"
  let ?td = "joinpath E (joinpath E output_dir channel_name) ''threads''"
  let ?parents = "filter (\<lambda>m. is_thread_parent m = Inr True) messages"
  from ex obtain flags where fl: "traverse is_thread_parent messages = Inr flags"
    by (cases "traverse is_thread_parent messages")
       (auto simp: export_threads_individually_def raise_or_def Let_def)
  from ex fl have "export_loop E ?td channel_name channel_id include_standalone ?parents (0, 0) st
        = (Inr (e, s), st')"
    by (simp add: export_threads_individually_def raise_or_def Let_def traverse_filter [OF fl])
  note l = export_loop_own_files [OF this]
  from l show "\<exists>new. files st' = files st @ new
         \<and> map fst new =
             map (\<lambda>m. thread_file_name E output_dir channel_name (ts_of m))
               (filter (\<lambda>m. has_replies m \<or> include_standalone) ?parents)"
    by (simp add: thread_file_name_def)
  from l show "\<forall>m \<in> set messages.
            is_thread_parent m = Inr True \<and> (has_replies m \<or> include_standalone) \<longrightarrow>
            py_get m ''ts'' (JStr []) = Inr (JStr (ts_of m))"
    by auto
  from l show "e = length (filter (\<lambda>m. has_replies m \<or> include_standalone) ?parents)"
    by simp
  from l show "s = length (filter (\<lambda>m. \<not> (has_replies m \<or> include_standalone)) ?parents)"
    by simp
next
  fix m s0 md s1 T
  assume "(has_replies m \<or> include_standalone)
        \<and> extract_thread_metadata E s0 m = (Inr md, s1)
        \<and> py_get m ''ts'' (JStr []) = Inr (JStr T)"
  then have a: "has_replies m \<or> include_standalone"
    and b: "extract_thread_metadata E s0 m = (Inr md, s1)"
    and c: "py_get m ''ts'' (JStr []) = Inr (JStr T)" by blast+
  from export_thread_opens [OF a b c]
  show "\<exists>c. files (snd (export_thread E s0
                 (joinpath E (joinpath E output_dir channel_name) ''threads'')
                 channel_name channel_id include_standalone m)) =
              files s0 @ [(thread_file_name E output_dir channel_name T, c)]"
    by (simp add: thread_file_name_def)
next
  fix r st'
  assume "export_threads_individually E st messages output_dir channel_name channel_id
          include_standalone = (r, st')"
  from export_files_named [THEN conjunct1, rule_format, OF this]
  show "\<exists>new. files st' = files st @ new
           \<and> (\<forall>pc \<in> set new. \<exists>m T.
                 m \<in> set messages \<and> is_thread_parent m = Inr True
                 \<and> py_get m ''ts'' (JStr []) = Inr (JStr T)
                 \<and> fst pc = thread_file_name E output_dir channel_name T)"
    unfolding thread_file_name_def by blast
next
  fix s :: string show "normalize_ts (normalize_ts s) = normalize_ts s" by (rule normalize_ts_idem)
next
  fix s :: string show "length (normalize_ts s) = length s" by (simp add: normalize_ts_def)
next
  fix s :: string show "CHR ''.'' \<notin> set (normalize_ts s)" by (rule normalize_ts_no_dot)
next
  fix s :: string and i assume "i < length s"
  then show "normalize_ts s ! i = (if s ! i = CHR ''.'' then CHR ''_'' else s ! i)"
    by (simp add: normalize_ts_def)
qed

text \<open>
  A thread with two replies, a plain message and a bot message without replies: one
  file, named after the thread's timestamp, and one thread skipped.
\<close>

theorem export_own_file_names_witness:
  "fst (export_threads_individually (demo_env demo_api) init [thread_a, msg_b, msg_c]
          ''exports'' ''general'' ''C1'' False) = Inr (1, 1)
   \<and> map fst (files (snd (export_threads_individually (demo_env demo_api) init
          [thread_a, msg_b, msg_c] ''exports'' ''general'' ''C1'' False))) =
       [''exports/general/threads/thread_1700000003_000200.md'']
   \<and> (\<exists>c. files (snd (export_thread (demo_env demo_api) init ''exports/general/threads''
                ''general'' ''C1'' False thread_a)) =
            [(''exports/general/threads/thread_1700000003_000200.md'', c)])
   \<and> normalize_ts (normalize_ts ''1700000003.000200'') = ''1700000003_000200''"
proof -
  let ?E = "demo_env demo_api"
  let ?x = "export_threads_individually ?E init [thread_a, msg_b, msg_c]
          ''exports'' ''general'' ''C1'' False"
  note t = export_own_file_names [of ?E init "[thread_a, msg_b, msg_c]" "''exports''"
      "''general''" "''C1''" False]
  have hr: "has_replies thread_a" "\<not> has_replies msg_c"
    by (simp_all add: has_replies_def thread_a_def msg_c_def)
  have tp: "is_thread_parent thread_a = Inr True" "is_thread_parent msg_b = Inr False"
    "is_thread_parent msg_c = Inr True"
    by (simp_all add: is_thread_parent_def thread_a_def msg_b_def msg_c_def)
  have ts: "py_get thread_a ''ts'' (JStr []) = Inr (JStr ''1700000003.000200'')"
    "ts_of thread_a = ''1700000003.000200''"
    by (simp_all add: ts_of_def thread_a_def)
  have nm: "thread_file_name ?E ''exports'' ''general'' ''1700000003.000200'' =
      ''exports/general/threads/thread_1700000003_000200.md''"
    by (simp add: thread_file_name_def normalize_ts_def demo_env_def)
  have td: "joinpath ?E (joinpath ?E ''exports'' ''general'') ''threads'' = ''exports/general/threads''"
    by (simp add: demo_env_def)
  have "?x = (Inr (1, 1), snd ?x)"
    using demo_export_result by (metis prod.collapse)
  from t [THEN conjunct1, rule_format, OF this] obtain new where
    n: "files (snd ?x) = files init @ new"
       "map fst new = map (\<lambda>m. thread_file_name ?E ''exports'' ''general'' (ts_of m))
          (filter (\<lambda>m. has_replies m \<or> False)
             (filter (\<lambda>m. is_thread_parent m = Inr True) [thread_a, msg_b, msg_c]))"
    by blast
  from n have names: "map fst (files (snd ?x)) =
      [''exports/general/threads/thread_1700000003_000200.md'']"
    by (simp add: init_def hr tp ts nm)
  have "\<exists>md. fst (extract_thread_metadata ?E init thread_a) = Inr md"
    by (simp add: export_defs add_repliers.simps thread_a_def reply_1_def reply_2_def demo_defs
        dec_float_def digits_val_def)
  then obtain md where "extract_thread_metadata ?E init thread_a =
      (Inr md, snd (extract_thread_metadata ?E init thread_a))"
    by (metis prod.collapse)
  with hr(1) ts(1) have "(has_replies thread_a \<or> False)
        \<and> extract_thread_metadata ?E init thread_a =
            (Inr md, snd (extract_thread_metadata ?E init thread_a))
        \<and> py_get thread_a ''ts'' (JStr []) = Inr (JStr ''1700000003.000200'')"
    by simp
  from t [THEN conjunct2, THEN conjunct1, rule_format, OF this]
  have own: "\<exists>c. files (snd (export_thread ?E init ''exports/general/threads''
                ''general'' ''C1'' False thread_a)) =
            [(''exports/general/threads/thread_1700000003_000200.md'', c)]"
    by (simp add: td nm init_def)
  from t have "normalize_ts (normalize_ts ''1700000003.000200'') = normalize_ts ''1700000003.000200''"
    by blast
  then have i: "normalize_ts (normalize_ts ''1700000003.000200'') = ''1700000003_000200''"
    by (simp add: normalize_ts_def)
  from demo_export_result names own i show ?thesis by simp
qed

end
